theory Spec2Isabelle
  imports Complex_Main "HOL-Library.Log_Nat" "HOL-Library.Sublist"
    "HOL-Library.Code_Target_Numeral"
begin

chapter \<open>image-bed: upload, list and delete files of a GitHub repository\<close>

text \<open>
  The repository holds three command-line clients of the GitHub contents API, each one
  class: \<^verbatim>\<open>GitHubImageUploader\<close> (\<^verbatim>\<open>script/upload-image.ts\<close>, the source that
  follows the documentation in \<^verbatim>\<open>README.md\<close>), \<^verbatim>\<open>GitHubImageLister\<close>
  (\<^verbatim>\<open>server/script/list-image.ts\<close>) and \<^verbatim>\<open>GitHubImageDeleter\<close>. This theory
  embeds the methods of the uploader and the deleter and \<^verbatim>\<open>formatSize\<close> of the
  lister as HOL functions and proves properties of them. The \<^verbatim>\<open>main\<close> functions,
  which read the command line and set the exit code, are not embedded.

  Conventions of the embedding.
  \<^item> A JavaScript string is a \<^typ>\<open>string\<close>, a list of 8-bit characters; code units
    beyond that range are outside the model. The Chinese console and error texts of the
    source are constructors of the datatypes \<open>js_error\<close> and \<open>log_entry\<close>, which carry
    the interpolated values.
  \<^item> A thrown exception is the \<open>Inl\<close> side of a sum; \<^verbatim>\<open>try\<close>/\<^verbatim>\<open>catch\<close>
    is a case distinction on it.
  \<^item> What the process can observe of its surroundings (the file system, the clock, the
    answers of the remote API, the regular-expression engine) is a record \<open>platform\<close> of
    functions; what the process changes (the HTTP requests it has issued, the console, the
    number of clock readings) is a record \<open>world\<close> that every effectful method takes and
    returns.
  \<^item> \<^verbatim>\<open>number\<close> values that are byte counts and timestamps are natural numbers.
    The double-precision \<^verbatim>\<open>Math.log\<close> and division of \<^verbatim>\<open>formatSize\<close> are
    parameters too, a record \<open>js_math\<close>.
\<close>

section \<open>Strings and numbers of the JavaScript runtime\<close>

text \<open>\<^verbatim>\<open>String(n)\<close> for a non-negative integer below \<open>10 ^ 21\<close>: its decimal digits.\<close>

definition digit_char :: "nat \<Rightarrow> char" where
  "digit_char d = ''0123456789'' ! d"

fun show_nat :: "nat \<Rightarrow> string" where
  "show_nat n = (if n < 10 then [digit_char n] else show_nat (n div 10) @ [digit_char (n mod 10)])"

declare show_nat.simps [simp del]

text \<open>\<^verbatim>\<open>s.startsWith(p)\<close>.\<close>

definition startsWith :: "string \<Rightarrow> string \<Rightarrow> bool" where
  "startsWith s p = (take (length p) s = p)"

text \<open>
  \<^verbatim>\<open>s.indexOf(sub)\<close>: the index of the first occurrence of \<open>sub\<close> in \<open>s\<close>, or \<open>-1\<close>.
\<close>

fun indexOf_from :: "string \<Rightarrow> string \<Rightarrow> nat \<Rightarrow> int" where
  "indexOf_from [] sub i = (if sub = [] then int i else - 1)"
| "indexOf_from (c # cs) sub i =
     (if take (length sub) (c # cs) = sub then int i else indexOf_from cs sub (Suc i))"

definition indexOf :: "string \<Rightarrow> string \<Rightarrow> int" where
  "indexOf s sub = indexOf_from s sub 0"

text \<open>
  \<^verbatim>\<open>s.substring(start)\<close>: a negative start counts as 0, a start beyond the end gives the
  empty string.
\<close>

definition substring :: "string \<Rightarrow> int \<Rightarrow> string" where
  "substring s start = drop (nat start) s"

text \<open>
  \<^verbatim>\<open>xs[i]\<close> on an array: \<^verbatim>\<open>undefined\<close> (here \<open>None\<close>) when the index is out of
  range, never an exception.
\<close>

definition array_get :: "'a list \<Rightarrow> int \<Rightarrow> 'a option" where
  "array_get xs i = (if 0 \<le> i \<and> i < int (length xs) then Some (xs ! nat i) else None)"

text \<open>
  \<^verbatim>\<open>a || b\<close> on an optional string: the default is taken when the value is
  \<^verbatim>\<open>undefined\<close> or the empty string.
\<close>

definition or_else :: "string option \<Rightarrow> string \<Rightarrow> string" where
  "or_else v d = (case v of None \<Rightarrow> d | Some s \<Rightarrow> if s = [] then d else s)"

section \<open>The lister: \<^verbatim>\<open>formatSize\<close>\<close>

text \<open>
  \<^verbatim>\<open>
  private formatSize(bytes: number): string {
      if (bytes === 0) return '0 B';
      const k = 1024;
      const sizes = ['B', 'KB', 'MB', 'GB', 'TB'];
      const i = Math.floor(Math.log(bytes) / Math.log(k));
      return parseFloat((bytes / Math.pow(k, i)).toFixed(2)) + ' ' + sizes[i];
  }
  \<close>
\<close>

definition sizes :: "string list" where
  "sizes = [''B'', ''KB'', ''MB'', ''GB'', ''TB'']"

text \<open>
  ECMAScript leaves \<^verbatim>\<open>Math.log\<close> to the implementation, and the source divides two
  of its values in double precision. The runtime's arithmetic is therefore a parameter:
  \<open>Math_log\<close> is \<^verbatim>\<open>Math.log\<close> and \<open>fdiv\<close> the division \<^verbatim>\<open>/\<close> of two doubles.
\<close>

record js_math =
  Math_log :: "real \<Rightarrow> real"
  fdiv :: "real \<Rightarrow> real \<Rightarrow> real"

text \<open>\<^verbatim>\<open>Math.log(bytes) / Math.log(k)\<close> with \<open>k = 1024\<close>.\<close>

definition logQuotient :: "js_math \<Rightarrow> nat \<Rightarrow> real" where
  "logQuotient M bytes = fdiv M (Math_log M (real bytes)) (Math_log M 1024)"

text \<open>\<^verbatim>\<open>Math.floor(Math.log(bytes) / Math.log(k))\<close>.\<close>

definition unitIndex :: "js_math \<Rightarrow> nat \<Rightarrow> int" where
  "unitIndex M bytes = \<lfloor>logQuotient M bytes\<rfloor>"

text \<open>
  What the theorems below use of double-precision arithmetic. \<^verbatim>\<open>Math.log\<close> is
  monotone on positive arguments and so is the division by \<^verbatim>\<open>Math.log(1024)\<close>; and
  at eleven arguments the computed quotient lies on the stated side of an integer. In
  IEEE double arithmetic the quotient is exactly \<open>n\<close> at \<open>1024\<^sup>n\<close> for \<open>n \<le> 5\<close>; it is
  0.99985..., 1.99999986..., 2.99999999986... and 3.999999999999869 one below the first
  four powers. Below \<open>1024\<^sup>5\<close> the logarithm no longer separates neighbours: the quotient
  is 4.999999999999999 at \<open>1024\<^sup>5 - 4\<close> and already 5 at \<open>1024\<^sup>5 - 3\<close>.
\<close>

definition double_log :: "js_math \<Rightarrow> bool" where
  "double_log M \<longleftrightarrow>
     (\<forall>x y. 0 < x \<and> x \<le> y \<longrightarrow> Math_log M x \<le> Math_log M y) \<and>
     (\<forall>x y. x \<le> y \<longrightarrow> fdiv M x (Math_log M 1024) \<le> fdiv M y (Math_log M 1024)) \<and>
     0 \<le> logQuotient M 1 \<and>
     logQuotient M 1023 < 1 \<and> 1 \<le> logQuotient M 1024 \<and>
     logQuotient M 1048575 < 2 \<and> 2 \<le> logQuotient M 1048576 \<and>
     logQuotient M 1073741823 < 3 \<and> 3 \<le> logQuotient M 1073741824 \<and>
     logQuotient M 1099511627775 < 4 \<and> 4 \<le> logQuotient M 1099511627776 \<and>
     logQuotient M 1125899906842620 < 5 \<and> 5 \<le> logQuotient M 1125899906842621"

text \<open>
  A runtime of this kind: the logarithm is exact, except that the three arguments below
  \<open>1024\<^sup>5\<close> are rounded up to it.
\<close>

definition roundingMath :: js_math where
  "roundingMath =
     \<lparr>Math_log = (\<lambda>x. if 1125899906842621 \<le> x \<and> x \<le> 1125899906842624
                      then ln 1125899906842624 else ln x),
      fdiv = (\<lambda>x y. x / y)\<rparr>"

text \<open>
  \<^verbatim>\<open>x.toFixed(2)\<close> for \<open>x \<ge> 0\<close>, as the number of hundredths it prints: the integer
  \<open>n\<close> with \<open>n / 100\<close> nearest to \<open>x\<close>, the larger one on a tie.
\<close>

definition toFixed2 :: "real \<Rightarrow> nat" where
  "toFixed2 x = nat \<lfloor>x * 100 + 1 / 2\<rfloor>"

text \<open>
  \<^verbatim>\<open>parseFloat(s) + ' '\<close> for the output \<open>s\<close> of \<^verbatim>\<open>toFixed(2)\<close>: the number is
  printed again without trailing zeros, \<open>h\<close> hundredths as \<^verbatim>\<open>w\<close>, \<^verbatim>\<open>w.d\<close> or
  \<^verbatim>\<open>w.dd\<close>.
\<close>

definition showHundredths :: "nat \<Rightarrow> string" where
  "showHundredths h =
     (let w = h div 100; f = h mod 100 in
      show_nat w @
      (if f = 0 then []
       else if f mod 10 = 0 then ''.'' @ [digit_char (f div 10)]
       else ''.'' @ [digit_char (f div 10), digit_char (f mod 10)]))"

text \<open>String concatenation with an array element: \<^verbatim>\<open>undefined\<close> prints as such.\<close>

definition concat_unit :: "string option \<Rightarrow> string" where
  "concat_unit u = (case u of None \<Rightarrow> ''undefined'' | Some s \<Rightarrow> s)"

text \<open>
  \<^verbatim>\<open>bytes / Math.pow(k, i)\<close> is exact in double precision for a byte count below
  \<open>2\<^sup>5\<^sup>3\<close>, the divisor being a power of two; it is taken as the real quotient.
\<close>

definition formatSize :: "js_math \<Rightarrow> nat \<Rightarrow> string" where
  "formatSize M bytes =
     (if bytes = 0 then ''0 B''
      else let i = unitIndex M bytes in
        showHundredths (toFixed2 (real bytes / 1024 powr real_of_int i)) @ '' '' @
        concat_unit (array_get sizes i))"

text \<open>The magnitude \<^verbatim>\<open>formatSize\<close> shows, in hundredths.\<close>

definition shownHundredths :: "js_math \<Rightarrow> nat \<Rightarrow> nat" where
  "shownHundredths M bytes =
     toFixed2 (real bytes / 1024 powr real_of_int (unitIndex M bytes))"

section \<open>Configuration, errors, requests and the world\<close>

text \<open>
  The four settings every client reads from the environment in its constructor
  (\<^verbatim>\<open>GITHUB_OWNER\<close>, \<^verbatim>\<open>GITHUB_REPO\<close>, \<^verbatim>\<open>GITHUB_TOKEN\<close>, \<^verbatim>\<open>GITHUB_BRANCH\<close>).
\<close>

record config =
  owner :: string
  repo :: string
  token :: string
  branch :: string

text \<open>
  The values the source throws. \<open>AxiosError status api_message message\<close> is the error
  of the HTTP client (\<^verbatim>\<open>axios.isAxiosError\<close> holds of it alone), with
  \<^verbatim>\<open>error.response?.status\<close>, \<^verbatim>\<open>error.response?.data?.message\<close> and
  \<^verbatim>\<open>error.message\<close>. The others are \<^verbatim>\<open>Error\<close> objects: the three messages
  the source builds itself, the wrapper \<^verbatim>\<open>GitHub API ...: status - message\<close> of the
  uploader, an error of the file system, and an error of the regular-expression engine.
\<close>

datatype js_error =
    ConfigMissing
  | LocalFileNotFound string
  | RemoteFileNotFound string
  | AxiosError "nat option" "string option" string
  | GitHubApiError "nat option" string
  | SystemError string
  | RegExpError string

definition isAxiosError :: "js_error \<Rightarrow> bool" where
  "isAxiosError e = (case e of AxiosError _ _ _ \<Rightarrow> True | _ \<Rightarrow> False)"

datatype http_method = GET | PUT | DELETE

text \<open>
  An HTTP request as the source hands it to axios: the URL, the headers and the fields
  of the JSON body (the \<^verbatim>\<open>data\<close> option for a DELETE).
\<close>

record request =
  req_method :: http_method
  req_url :: string
  req_headers :: "(string \<times> string) list"
  req_body :: "(string \<times> string) list"

text \<open>
  The declared response types, with the fields the source reads:
  \<^verbatim>\<open>GitHubFileResponse.sha\<close> and \<^verbatim>\<open>GitHubUploadResponse.content.download_url\<close>.
\<close>

record GitHubFileResponse =
  sha :: string

record GitHubUploadResponse =
  download_url :: string

text \<open>
  What a successful GET of the contents endpoint carries: the descriptor of a file, or,
  when the path is a directory, an array of descriptors (the lister declares the type
  \<^verbatim>\<open>GitHubFileResponse[] | GitHubFileResponse\<close> and tests \<^verbatim>\<open>Array.isArray\<close>).
  The deleter declares the answer a \<^verbatim>\<open>GitHubFileResponse\<close> and reads
  \<^verbatim>\<open>response.data.sha\<close> without a test: on an array that is \<^verbatim>\<open>undefined\<close>,
  here \<open>None\<close>.
\<close>

datatype contents_data =
    FileData GitHubFileResponse
  | DirectoryData "GitHubFileResponse list"

definition data_sha :: "contents_data \<Rightarrow> string option" where
  "data_sha d = (case d of FileData f \<Rightarrow> Some (sha f) | DirectoryData _ \<Rightarrow> None)"

text \<open>Lines of the console, one constructor for each message of the source.\<close>

datatype log_entry =
    LogUploading string
  | LogTarget string
  | LogUploadOk
  | LogImageUrl string
  | ErrUploadFailed js_error
  | ErrBatchUploadFailed string js_error
  | LogProcessing string
  | LogResolvedPath string
  | LogSha "string option"
  | LogDeleteOk
  | ErrDeleteFailed js_error
  | ErrError js_error
  | LogSeparator

text \<open>
  The surroundings of the process. The remote API answers a request as a function of the
  requests issued before it; the \<open>n\<close>-th reading of the clock is \<open>dateNow n\<close>;
  \<open>regExpMatch pattern input\<close> is \<^verbatim>\<open>input.match(new RegExp(pattern))\<close>, reduced to
  what the source reads of it: an error when the pattern does not compile, \<open>None\<close> when
  there is no match, otherwise the text of capture group 1.
\<close>

record platform =
  existsSync :: "string \<Rightarrow> bool"
  readFileSync :: "string \<Rightarrow> js_error + string"
  dateNow :: "nat \<Rightarrow> nat"
  axiosGet :: "request list \<Rightarrow> request \<Rightarrow> js_error + contents_data"
  axiosPut :: "request list \<Rightarrow> request \<Rightarrow> js_error + GitHubUploadResponse"
  axiosDelete :: "request list \<Rightarrow> request \<Rightarrow> js_error + unit"
  regExpMatch :: "string \<Rightarrow> string \<Rightarrow> js_error + string option"

text \<open>What the process has done so far.\<close>

record world =
  requests :: "request list"
  console :: "log_entry list"
  ticks :: nat

definition console_log :: "log_entry \<Rightarrow> world \<Rightarrow> world" where
  "console_log l w = w\<lparr>console := console w @ [l]\<rparr>"

definition issue :: "request \<Rightarrow> world \<Rightarrow> world" where
  "issue r w = w\<lparr>requests := requests w @ [r]\<rparr>"

definition apiUrl :: string where
  "apiUrl = ''https://api.github.com''"

text \<open>
  \<^verbatim>\<open>
  private validateConfig(): void {
      if (!this.owner || !this.repo || !this.token) {
          throw new Error(...);
      }
  }
  \<close>
  The constructor, the same in the three classes, reads the environment, defaults the
  branch to \<^verbatim>\<open>main\<close> and validates.
\<close>

definition validateConfig :: "config \<Rightarrow> js_error + unit" where
  "validateConfig c =
     (if owner c = [] \<or> repo c = [] \<or> token c = [] then Inl ConfigMissing else Inr ())"

definition constructor :: "(string \<Rightarrow> string option) \<Rightarrow> js_error + config" where
  "constructor env =
     (let c = \<lparr>owner = or_else (env ''GITHUB_OWNER'') [],
               repo = or_else (env ''GITHUB_REPO'') [],
               token = or_else (env ''GITHUB_TOKEN'') [],
               branch = or_else (env ''GITHUB_BRANCH'') ''main''\<rparr>
      in case validateConfig c of Inl e \<Rightarrow> Inl e | Inr _ \<Rightarrow> Inr c)"

definition authHeaders :: "config \<Rightarrow> (string \<times> string) list" where
  "authHeaders c =
     [(''Authorization'', ''token '' @ token c),
      (''Accept'', ''application/vnd.github.v3+json'')]"

definition jsonHeaders :: "config \<Rightarrow> (string \<times> string) list" where
  "jsonHeaders c =
     [(''Authorization'', ''token '' @ token c),
      (''Content-Type'', ''application/json''),
      (''Accept'', ''application/vnd.github.v3+json'')]"

section \<open>The \<^verbatim>\<open>path\<close> module of Node.js\<close>

text \<open>
  The uploader and the deleter call \<^verbatim>\<open>path.basename\<close> and \<^verbatim>\<open>path.extname\<close> of
  the Node.js runtime, which is not part of the repository. They are modelled in their
  POSIX form, where \<^verbatim>\<open>/\<close> is the only separator. Both work on the last portion of
  the path: trailing separators are ignored, and the portion runs back to the separator
  before it.
\<close>

definition isSlash :: "char \<Rightarrow> bool" where
  "isSlash c = (c = CHR ''/'')"

definition trailingSlashes :: "string \<Rightarrow> string" where
  "trailingSlashes p = takeWhile isSlash (rev p)"

definition lastPortion :: "string \<Rightarrow> string" where
  "lastPortion p = rev (takeWhile (\<lambda>c. \<not> isSlash c) (dropWhile isSlash (rev p)))"

text \<open>\<^verbatim>\<open>path.basename(p)\<close>.\<close>

definition basename :: "string \<Rightarrow> string" where
  "basename p = lastPortion p"

text \<open>
  \<^verbatim>\<open>path.extname(p)\<close>: from the last \<^verbatim>\<open>.\<close> of the last portion to its end; empty
  when the portion has no dot, when its only dot is its first character, and when the
  portion is \<^verbatim>\<open>..\<close>.
\<close>

definition extname :: "string \<Rightarrow> string" where
  "extname p =
     (let part = lastPortion p;
          ext = CHR ''.'' # rev (takeWhile (\<lambda>c. c \<noteq> CHR ''.'') (rev part))
      in if CHR ''.'' \<notin> set part then []
         else if length part = length ext then []
         else if part = ''..'' then []
         else ext)"

text \<open>
  \<^verbatim>\<open>path.basename(p, suffix)\<close>. An empty suffix, or one longer than the path, is
  ignored; a suffix equal to the whole path gives the empty string. Otherwise the suffix
  is compared with the end of the last portion: it is removed when the portion ends with
  it and is longer than it. When the portion is exhausted before the suffix (the portion
  is a proper suffix of the suffix) Node returns the portion together with the trailing
  separators.
\<close>

definition basename_ext :: "string \<Rightarrow> string \<Rightarrow> string" where
  "basename_ext p s =
     (if s \<noteq> [] \<and> length s \<le> length p then
        (if s = p then []
         else let part = lastPortion p in
           if suffix s part then
             (if s = part then part else take (length part - length s) part)
           else if suffix part s then part @ trailingSlashes p
           else part)
      else lastPortion p)"

section \<open>The uploader\<close>

text \<open>
  \<^verbatim>\<open>Buffer.toString('base64')\<close>: the standard alphabet, padded with \<^verbatim>\<open>=\<close>.
\<close>

definition b64 :: "nat \<Rightarrow> char" where
  "b64 n = ''ABCDEFGHIJKLMNOPQRSTUVWXYZabcdefghijklmnopqrstuvwxyz0123456789+/'' ! n"

fun base64 :: "nat list \<Rightarrow> string" where
  "base64 [] = []"
| "base64 [a] = [b64 (a div 4), b64 (a mod 4 * 16), CHR ''='', CHR ''='']"
| "base64 [a, b] =
     [b64 (a div 4), b64 (a mod 4 * 16 + b div 16), b64 (b mod 16 * 4), CHR ''='']"
| "base64 (a # b # c # bs) =
     [b64 (a div 4), b64 (a mod 4 * 16 + b div 16), b64 (b mod 16 * 4 + c div 64),
      b64 (c mod 64)] @ base64 bs"

text \<open>
  \<^verbatim>\<open>
  private fileToBase64(filePath: string): string {
    const fileBuffer = fs.readFileSync(filePath);
    return fileBuffer.toString('base64');
  }
  \<close>
\<close>

definition fileToBase64 :: "platform \<Rightarrow> string \<Rightarrow> js_error + string" where
  "fileToBase64 P filePath =
     (case readFileSync P filePath of
        Inl e \<Rightarrow> Inl e
      | Inr fileBuffer \<Rightarrow> Inr (base64 (map of_char fileBuffer)))"

text \<open>
  \<^verbatim>\<open>
  private generateFileName(originalName: string): string {
    const timestamp = Date.now();
    const ext = path.extname(originalName);
    const nameWithoutExt = path.basename(originalName, ext);
    return `${nameWithoutExt}-${timestamp}${ext}`;
  }
  \<close>
  Reading the clock is the one effect.
\<close>

definition generateFileName :: "platform \<Rightarrow> string \<Rightarrow> world \<Rightarrow> string \<times> world" where
  "generateFileName P originalName w =
     (let timestamp = dateNow P (ticks w);
          ext = extname originalName;
          nameWithoutExt = basename_ext originalName ext
      in (nameWithoutExt @ ''-'' @ show_nat timestamp @ ext, w\<lparr>ticks := Suc (ticks w)\<rparr>))"

text \<open>The request \<^verbatim>\<open>uploadImage\<close> sends for a remote path, a file name and a content.\<close>

definition putRequest :: "config \<Rightarrow> string \<Rightarrow> string \<Rightarrow> string \<Rightarrow> request" where
  "putRequest c remoteFilePath fileName base64Content =
     \<lparr>req_method = PUT,
      req_url = apiUrl @ ''/repos/'' @ owner c @ ''/'' @ repo c @ ''/contents/'' @ remoteFilePath,
      req_headers = jsonHeaders c,
      req_body = [(''message'', ''Upload image: '' @ fileName),
              (''content'', base64Content),
              (''branch'', branch c)]\<rparr>"

text \<open>
  The body of the \<^verbatim>\<open>try\<close> block of \<^verbatim>\<open>uploadImage\<close>:
  \<^verbatim>\<open>
      if (!fs.existsSync(localFilePath)) {
        throw new Error(...);
      }
      const fileName = customFileName || this.generateFileName(path.basename(localFilePath));
      const base64Content = this.fileToBase64(localFilePath);
      const remoteDir = remotePath || 'images';
      const remoteFilePath = `${remoteDir}/${fileName}`;
      console.log(...); console.log(...);
      const url = `${this.apiUrl}/repos/${this.owner}/${this.repo}/contents/${remoteFilePath}`;
      const response = await axios.put<GitHubUploadResponse>(url, {...}, {...});
      const downloadUrl = response.data.content.download_url;
      console.log(...); console.log(...);
      return downloadUrl;
  \<close>
\<close>

definition uploadImage_try ::
  "platform \<Rightarrow> config \<Rightarrow> string \<Rightarrow> string option \<Rightarrow> string option \<Rightarrow> world \<Rightarrow>
     (js_error + string) \<times> world" where
  "uploadImage_try P c localFilePath remotePath customFileName w =
     (if \<not> existsSync P localFilePath then (Inl (LocalFileNotFound localFilePath), w)
      else
        let (fileName, w1) =
              (case customFileName of
                 None \<Rightarrow> generateFileName P (basename localFilePath) w
               | Some n \<Rightarrow>
                   if n = [] then generateFileName P (basename localFilePath) w else (n, w))
        in case fileToBase64 P localFilePath of
             Inl e \<Rightarrow> (Inl e, w1)
           | Inr base64Content \<Rightarrow>
               let remoteDir = or_else remotePath ''images'';
                   remoteFilePath = remoteDir @ ''/'' @ fileName;
                   w2 = console_log (LogTarget remoteFilePath)
                          (console_log (LogUploading localFilePath) w1);
                   req = putRequest c remoteFilePath fileName base64Content
               in case axiosPut P (requests w2) req of
                    Inl e \<Rightarrow> (Inl e, issue req w2)
                  | Inr response \<Rightarrow>
                      let downloadUrl = download_url response
                      in (Inr downloadUrl,
                          console_log (LogImageUrl downloadUrl)
                            (console_log LogUploadOk (issue req w2))))"

text \<open>
  \<^verbatim>\<open>uploadImage\<close> with its \<^verbatim>\<open>catch\<close>: an axios error is logged and thrown again as
  a new \<^verbatim>\<open>Error\<close> with the status and the message; any other error is thrown again
  as it is.
  \<^verbatim>\<open>
    } catch (error: any) {
      if (axios.isAxiosError(error)) {
        console.error(..., error.response?.data || error.message);
        throw new Error(`...: ${error.response?.status} - ${error.response?.data?.message || error.message}`);
      }
      throw error;
    }
  \<close>
\<close>

definition uploadImage ::
  "platform \<Rightarrow> config \<Rightarrow> string \<Rightarrow> string option \<Rightarrow> string option \<Rightarrow> world \<Rightarrow>
     (js_error + string) \<times> world" where
  "uploadImage P c localFilePath remotePath customFileName w =
     (case uploadImage_try P c localFilePath remotePath customFileName w of
        (Inr downloadUrl, w') \<Rightarrow> (Inr downloadUrl, w')
      | (Inl error, w') \<Rightarrow>
          (case error of
             AxiosError status apiMessage message \<Rightarrow>
               (Inl (GitHubApiError status (or_else apiMessage message)),
                console_log (ErrUploadFailed error) w')
           | _ \<Rightarrow> (Inl error, w')))"

text \<open>
  \<^verbatim>\<open>
  async uploadImages(filePaths: string[], remotePath?: string): Promise<string[]> {
    const results: string[] = [];
    for (const filePath of filePaths) {
      try {
        const url = await this.uploadImage(filePath, remotePath);
        results.push(url);
      } catch (error: any) {
        console.error(..., error.message);
        results.push('');
      }
    }
    return results;
  }
  \<close>
  The loop, with \<open>results\<close> and the world as its state.
\<close>

fun uploadImages_loop ::
  "platform \<Rightarrow> config \<Rightarrow> string option \<Rightarrow> string list \<Rightarrow> string list \<Rightarrow> world \<Rightarrow>
     string list \<times> world" where
  "uploadImages_loop P c remotePath [] results w = (results, w)"
| "uploadImages_loop P c remotePath (filePath # rest) results w =
     (case uploadImage P c filePath remotePath None w of
        (Inr url, w') \<Rightarrow> uploadImages_loop P c remotePath rest (results @ [url]) w'
      | (Inl error, w') \<Rightarrow>
          uploadImages_loop P c remotePath rest (results @ [[]])
            (console_log (ErrBatchUploadFailed filePath error) w'))"

definition uploadImages ::
  "platform \<Rightarrow> config \<Rightarrow> string list \<Rightarrow> string option \<Rightarrow> world \<Rightarrow> string list \<times> world" where
  "uploadImages P c filePaths remotePath w = uploadImages_loop P c remotePath filePaths [] w"

text \<open>
  The world one round of that loop leaves: the world \<^verbatim>\<open>uploadImage\<close> returns in, with
  the line of the \<^verbatim>\<open>catch\<close> when it threw.
\<close>

definition uploadRound ::
  "platform \<Rightarrow> config \<Rightarrow> string option \<Rightarrow> world \<Rightarrow> string \<Rightarrow> world" where
  "uploadRound P c remotePath w filePath =
     (case uploadImage P c filePath remotePath None w of
        (Inr url, w') \<Rightarrow> w'
      | (Inl error, w') \<Rightarrow> console_log (ErrBatchUploadFailed filePath error) w')"

section \<open>Regular expressions\<close>

text \<open>
  \<^verbatim>\<open>parsePath\<close> builds two regular expressions from the configuration and matches
  the input against them. The methods take the engine from the platform; \<open>jsRegExp\<close>
  below is a model of the ECMAScript engine (no flags) for the pattern syntax the two
  templates use: literal characters, escaped punctuation, \<^verbatim>\<open>.\<close>, groups
  \<^verbatim>\<open>(...)\<close> and \<^verbatim>\<open>(?:...)\<close>, and the greedy quantifiers \<^verbatim>\<open>?\<close>, \<^verbatim>\<open>*\<close>,
  \<^verbatim>\<open>+\<close> on an atom without a capture group. A pattern with any other syntax (which
  only a configuration value with such characters can produce) is answered with a
  \<open>RegExpError\<close>.
\<close>

datatype rx =
    RChar char
  | RAny
  | REmpty
  | RSeq rx rx
  | RGroup "nat option" rx
  | ROpt rx
  | RStar rx

text \<open>The backslash character.\<close>

definition backslash :: char where
  "backslash = CHR 0x5C"

text \<open>\<^verbatim>\<open>.\<close> matches every character but a line terminator.\<close>

definition isLineTerminator :: "char \<Rightarrow> bool" where
  "isLineTerminator c = (c = CHR 0x0A \<or> c = CHR 0x0D)"

definition isWordChar :: "char \<Rightarrow> bool" where
  "isWordChar c = (c \<in> set ''abcdefghijklmnopqrstuvwxyzABCDEFGHIJKLMNOPQRSTUVWXYZ0123456789_'')"

text \<open>
  The parser reads the pattern from left to right. \<open>cur\<close> holds the atoms of the group
  being read, last one first; \<open>stack\<close> the enclosing groups with the number of the
  group each \<^verbatim>\<open>(\<close> opened; \<open>n\<close> is the number of the next capture group.
\<close>

fun seq_of :: "rx list \<Rightarrow> rx" where
  "seq_of [] = REmpty"
| "seq_of [r] = r"
| "seq_of (r # rs) = RSeq r (seq_of rs)"

fun hasCapture :: "rx \<Rightarrow> bool" where
  "hasCapture (RGroup tag r) = (tag \<noteq> None \<or> hasCapture r)"
| "hasCapture (RSeq a b) = (hasCapture a \<or> hasCapture b)"
| "hasCapture (ROpt r) = hasCapture r"
| "hasCapture (RStar r) = hasCapture r"
| "hasCapture _ = False"

fun isQuantified :: "rx \<Rightarrow> bool" where
  "isQuantified (ROpt r) = True"
| "isQuantified (RStar r) = True"
| "isQuantified (RSeq a (RStar b)) = True"
| "isQuantified _ = False"

definition quantify :: "char \<Rightarrow> rx \<Rightarrow> rx" where
  "quantify q r = (if q = CHR ''?'' then ROpt r else if q = CHR ''*'' then RStar r else RSeq r (RStar r))"

fun parse_rx :: "string \<Rightarrow> rx list \<Rightarrow> (nat option \<times> rx list) list \<Rightarrow> nat \<Rightarrow> js_error + rx" where
  "parse_rx [] cur stack n =
     (if stack = [] then Inr (seq_of (rev cur)) else Inl (RegExpError ''Unterminated group''))"
| "parse_rx (c # cs) cur stack n =
     (if c = backslash then
        (case cs of
           [] \<Rightarrow> Inl (RegExpError ''backslash at end of pattern'')
         | e # cs' \<Rightarrow>
             if isWordChar e then Inl (RegExpError ''unsupported escape'')
             else parse_rx cs' (RChar e # cur) stack n)
      else if c = CHR ''.'' then parse_rx cs (RAny # cur) stack n
      else if c = CHR ''('' then
        (case cs of
           [] \<Rightarrow> Inl (RegExpError ''Unterminated group'')
         | q # cs' \<Rightarrow>
             if q = CHR ''?'' then
               (case cs' of
                  [] \<Rightarrow> Inl (RegExpError ''Invalid group'')
                | k # cs'' \<Rightarrow>
                    if k = CHR '':'' then parse_rx cs'' [] ((None, cur) # stack) n
                    else Inl (RegExpError ''unsupported group''))
             else parse_rx cs [] ((Some n, cur) # stack) (Suc n))
      else if c = CHR '')'' then
        (case stack of
           [] \<Rightarrow> Inl (RegExpError ''Unmatched )'')
         | (tag, outer) # stack' \<Rightarrow>
             parse_rx cs (RGroup tag (seq_of (rev cur)) # outer) stack' n)
      else if c = CHR ''?'' \<or> c = CHR ''*'' \<or> c = CHR ''+'' then
        (case cur of
           [] \<Rightarrow> Inl (RegExpError ''Nothing to repeat'')
         | r # cur' \<Rightarrow>
             if isQuantified r \<or> hasCapture r then Inl (RegExpError ''unsupported quantifier'')
             else parse_rx cs (quantify c r # cur') stack n)
      else if c \<in> set ''[]{}|^$'' then Inl (RegExpError ''unsupported syntax'')
      else parse_rx cs (RChar c # cur) stack n)"

text \<open>
  The backtracking matcher. A state is the input still to be read and the captures so
  far; \<open>rx_match r st\<close> lists the states after every way of matching \<open>r\<close> at \<open>st\<close>, in
  the order in which the engine tries them. A greedy quantifier tries one more iteration
  before it tries to stop, and an iteration that reads nothing is rejected.
\<close>

type_synonym rx_state = "string \<times> (nat \<Rightarrow> string option)"

function rx_match :: "rx \<Rightarrow> rx_state \<Rightarrow> rx_state list" where
  "rx_match (RChar c) (s, caps) =
     (case s of [] \<Rightarrow> [] | d # ds \<Rightarrow> if d = c then [(ds, caps)] else [])"
| "rx_match RAny (s, caps) =
     (case s of [] \<Rightarrow> [] | d # ds \<Rightarrow> if isLineTerminator d then [] else [(ds, caps)])"
| "rx_match REmpty (s, caps) = [(s, caps)]"
| "rx_match (RSeq a b) (s, caps) = concat (map (rx_match b) (rx_match a (s, caps)))"
| "rx_match (RGroup tag r) (s, caps) =
     map (\<lambda>st. (fst st,
                 case tag of
                   None \<Rightarrow> snd st
                 | Some k \<Rightarrow> (snd st)(k \<mapsto> take (length s - length (fst st)) s)))
       (rx_match r (s, caps))"
| "rx_match (ROpt r) (s, caps) =
     filter (\<lambda>st. length (fst st) < length s) (rx_match r (s, caps)) @ [(s, caps)]"
| "rx_match (RStar r) (s, caps) =
     concat (map (\<lambda>st. if length (fst st) < length s then rx_match (RStar r) st else [])
               (rx_match r (s, caps))) @ [(s, caps)]"
  by pat_completeness auto
termination
  by (relation "measures [\<lambda>(r, st). size r, \<lambda>(r, st). length (fst st)]") auto

text \<open>
  \<^verbatim>\<open>input.match(re)\<close> without the global flag: the first way of matching at the
  leftmost position where there is one.
\<close>

fun rx_search :: "rx \<Rightarrow> string \<Rightarrow> (nat \<Rightarrow> string option) option" where
  "rx_search r s =
     (case rx_match r (s, Map.empty) of
        st # _ \<Rightarrow> Some (snd st)
      | [] \<Rightarrow> (case s of [] \<Rightarrow> None | _ # s' \<Rightarrow> rx_search r s'))"

definition jsRegExp :: "string \<Rightarrow> string \<Rightarrow> js_error + string option" where
  "jsRegExp pattern input =
     (case parse_rx pattern [] [] 1 of
        Inl e \<Rightarrow> Inl e
      | Inr r \<Rightarrow>
          (case rx_search r input of
             None \<Rightarrow> Inr None
           | Some caps \<Rightarrow>
               (case caps 1 of
                  None \<Rightarrow> Inl (RegExpError ''unsupported: group 1 undefined'')
                | Some g \<Rightarrow> Inr (Some g))))"

text \<open>
  A configuration value whose characters all stand for themselves in a pattern, but for
  \<^verbatim>\<open>.\<close>, which stands for any character (GitHub owner, repository and branch names
  of letters, digits, \<^verbatim>\<open>-\<close>, \<^verbatim>\<open>_\<close>, \<^verbatim>\<open>/\<close> and \<^verbatim>\<open>.\<close> are of this kind).
\<close>

definition configText :: "string \<Rightarrow> bool" where
  "configText s = list_all (\<lambda>ch. ch \<noteq> backslash \<and> ch \<notin> set ''()?*+[]{}|^$'') s"

text \<open>
  For the proofs: the atom a character of such a value is parsed to, the characters an
  atom without quantifier matches, and the capture group \<^verbatim>\<open>(.+)\<close>.
\<close>

definition rx_of_char :: "char \<Rightarrow> rx" where
  "rx_of_char ch = (if ch = CHR ''.'' then RAny else RChar ch)"

definition accepts :: "rx \<Rightarrow> char \<Rightarrow> bool" where
  "accepts r ch = (r = RChar ch \<or> (r = RAny \<and> \<not> isLineTerminator ch))"

definition capturePath :: rx where
  "capturePath = RGroup (Some 1) (RSeq RAny (RStar RAny))"

section \<open>The deleter\<close>

text \<open>
  The two patterns of \<^verbatim>\<open>parsePath\<close>, as the template literals build them:
  \<^verbatim>\<open>raw\\.githubusercontent\\.com/${this.owner}/${this.repo}/${this.branch}/(.+)\<close> and
  \<^verbatim>\<open>cdn\\.jsdelivr\\.net/gh/${this.owner}/${this.repo}(?:@${this.branch})?/(.+)\<close>.
  The configuration values are interpolated as they are, without escaping.
\<close>

definition rawPattern :: "config \<Rightarrow> string" where
  "rawPattern c =
     ''raw'' @ [backslash] @ ''.githubusercontent'' @ [backslash] @ ''.com/'' @
     owner c @ ''/'' @ repo c @ ''/'' @ branch c @ ''/(.+)''"

definition cdnPattern :: "config \<Rightarrow> string" where
  "cdnPattern c =
     ''cdn'' @ [backslash] @ ''.jsdelivr'' @ [backslash] @ ''.net/gh/'' @
     owner c @ ''/'' @ repo c @ ''(?:@'' @ branch c @ '')?/(.+)''"

text \<open>
  For the proofs: the text the raw-content pattern matches before its capture group, and
  the atoms the pattern is parsed to when the configuration values are of the kind
  \<open>configText\<close>.
\<close>

definition rawText :: "config \<Rightarrow> string" where
  "rawText c =
     ''raw.githubusercontent.com/'' @ owner c @ ''/'' @ repo c @ ''/'' @ branch c @ ''/''"

definition rawItems :: "config \<Rightarrow> rx list" where
  "rawItems c =
     map RChar ''raw.githubusercontent.com/'' @ map rx_of_char (owner c) @ [RChar CHR ''/''] @
     map rx_of_char (repo c) @ [RChar CHR ''/''] @ map rx_of_char (branch c) @ [RChar CHR ''/'']"

text \<open>
  \<^verbatim>\<open>
  private parsePath(input: string): string {
      let cleanPath = input;
      if (input.startsWith('http')) {
          const rawPattern = new RegExp(...);
          const rawMatch = input.match(rawPattern);
          if (rawMatch) return rawMatch[1];
          const cdnPattern = new RegExp(...);
          const cdnMatch = input.match(cdnPattern);
          if (cdnMatch) return cdnMatch[1];
          const repoIndex = input.indexOf(this.repo);
          if (repoIndex !== -1) {
              const afterRepo = input.substring(repoIndex + this.repo.length);
              const branchIndex = afterRepo.indexOf(this.branch);
              if (branchIndex !== -1) {
                  return afterRepo.substring(branchIndex + this.branch.length + 1);
              }
          }
      }
      return cleanPath;
  }
  \<close>
  The method throws only when a pattern does not compile.
\<close>

definition parsePath :: "platform \<Rightarrow> config \<Rightarrow> string \<Rightarrow> js_error + string" where
  "parsePath P c input =
     (let cleanPath = input in
      if startsWith input ''http'' then
        (case regExpMatch P (rawPattern c) input of
           Inl e \<Rightarrow> Inl e
         | Inr (Some rawMatch1) \<Rightarrow> Inr rawMatch1
         | Inr None \<Rightarrow>
             (case regExpMatch P (cdnPattern c) input of
                Inl e \<Rightarrow> Inl e
              | Inr (Some cdnMatch1) \<Rightarrow> Inr cdnMatch1
              | Inr None \<Rightarrow>
                  let repoIndex = indexOf input (repo c) in
                  if repoIndex \<noteq> - 1 then
                    let afterRepo = substring input (repoIndex + int (length (repo c)));
                        branchIndex = indexOf afterRepo (branch c)
                    in if branchIndex \<noteq> - 1
                       then Inr (substring afterRepo (branchIndex + int (length (branch c)) + 1))
                       else Inr cleanPath
                  else Inr cleanPath))
      else Inr cleanPath)"

text \<open>\<^verbatim>\<open>parsePath(parsePath(x))\<close>.\<close>

definition parsePath_twice :: "platform \<Rightarrow> config \<Rightarrow> string \<Rightarrow> js_error + string" where
  "parsePath_twice P c x = (case parsePath P c x of Inl e \<Rightarrow> Inl e | Inr y \<Rightarrow> parsePath P c y)"

text \<open>
  The two requests of a deletion. The body of the DELETE is serialised as JSON, which
  leaves out a field whose value is \<^verbatim>\<open>undefined\<close>.
\<close>

definition getRequest :: "config \<Rightarrow> string \<Rightarrow> request" where
  "getRequest c filePath =
     \<lparr>req_method = GET,
      req_url = apiUrl @ ''/repos/'' @ owner c @ ''/'' @ repo c @ ''/contents/'' @ filePath @
                ''?ref='' @ branch c,
      req_headers = authHeaders c,
      req_body = []\<rparr>"

definition deleteRequest :: "config \<Rightarrow> string \<Rightarrow> string option \<Rightarrow> request" where
  "deleteRequest c filePath fileSha =
     \<lparr>req_method = DELETE,
      req_url = apiUrl @ ''/repos/'' @ owner c @ ''/'' @ repo c @ ''/contents/'' @ filePath,
      req_headers = jsonHeaders c,
      req_body = [(''message'', ''Delete image: '' @ basename filePath)] @
                 (case fileSha of None \<Rightarrow> [] | Some s \<Rightarrow> [(''sha'', s)]) @
                 [(''branch'', branch c)]\<rparr>"

text \<open>
  \<^verbatim>\<open>
  private async getFileSha(filePath: string): Promise<string> {
      try {
          const url = ...;
          const response = await axios.get<GitHubFileResponse>(url, {...});
          return response.data.sha;
      } catch (error: any) {
          if (axios.isAxiosError(error) && error.response?.status === 404) {
              throw new Error(...);
          }
          throw error;
      }
  }
  \<close>
\<close>

definition getFileSha ::
  "platform \<Rightarrow> config \<Rightarrow> string \<Rightarrow> world \<Rightarrow> (js_error + string option) \<times> world" where
  "getFileSha P c filePath w =
     (let req = getRequest c filePath in
      case axiosGet P (requests w) req of
        Inr response \<Rightarrow> (Inr (data_sha response), issue req w)
      | Inl error \<Rightarrow>
          (case error of
             AxiosError status apiMessage message \<Rightarrow>
               if status = Some 404 then (Inl (RemoteFileNotFound filePath), issue req w)
               else (Inl error, issue req w)
           | _ \<Rightarrow> (Inl error, issue req w)))"

text \<open>
  The body of the \<^verbatim>\<open>try\<close> block of \<^verbatim>\<open>deleteImage\<close>:
  \<^verbatim>\<open>
          const filePath = this.parsePath(inputPath);
          console.log(...); console.log(...);
          const sha = await this.getFileSha(filePath);
          console.log(...);
          const url = `${this.apiUrl}/repos/${this.owner}/${this.repo}/contents/${filePath}`;
          await axios.delete(url, { headers: {...}, data: { message: ..., sha: sha, branch: this.branch } });
          console.log(...);
  \<close>
\<close>

definition deleteImage_try ::
  "platform \<Rightarrow> config \<Rightarrow> string \<Rightarrow> world \<Rightarrow> (js_error + unit) \<times> world" where
  "deleteImage_try P c inputPath w =
     (case parsePath P c inputPath of
        Inl e \<Rightarrow> (Inl e, w)
      | Inr filePath \<Rightarrow>
          let w1 = console_log (LogResolvedPath filePath)
                     (console_log (LogProcessing inputPath) w)
          in case getFileSha P c filePath w1 of
               (Inl e, w2) \<Rightarrow> (Inl e, w2)
             | (Inr fileSha, w2) \<Rightarrow>
                 let w3 = console_log (LogSha fileSha) w2;
                     req = deleteRequest c filePath fileSha
                 in case axiosDelete P (requests w3) req of
                      Inl e \<Rightarrow> (Inl e, issue req w3)
                    | Inr _ \<Rightarrow> (Inr (), console_log LogDeleteOk (issue req w3)))"

text \<open>
  \<^verbatim>\<open>deleteImage\<close> with its \<^verbatim>\<open>catch\<close>, whose two \<^verbatim>\<open>throw\<close> statements are
  commented out in the source:
  \<^verbatim>\<open>
      } catch (error: any) {
          if (axios.isAxiosError(error)) {
              console.error(..., error.response?.data?.message || error.message);
              // throw new Error(...);
          } else {
              console.error(..., error.message);
              // throw error;
          }
      }
  \<close>
\<close>

definition deleteImage ::
  "platform \<Rightarrow> config \<Rightarrow> string \<Rightarrow> world \<Rightarrow> (js_error + unit) \<times> world" where
  "deleteImage P c inputPath w =
     (case deleteImage_try P c inputPath w of
        (Inr _, w') \<Rightarrow> (Inr (), w')
      | (Inl error, w') \<Rightarrow>
          if isAxiosError error then (Inr (), console_log (ErrDeleteFailed error) w')
          else (Inr (), console_log (ErrError error) w'))"

text \<open>
  \<^verbatim>\<open>
  async deleteImages(inputs: string[]): Promise<void> {
      for (const input of inputs) {
          await this.deleteImage(input);
          console.log('---');
      }
  }
  \<close>
  An exception of \<^verbatim>\<open>deleteImage\<close> would leave the loop.
\<close>

fun deleteImages ::
  "platform \<Rightarrow> config \<Rightarrow> string list \<Rightarrow> world \<Rightarrow> (js_error + unit) \<times> world" where
  "deleteImages P c [] w = (Inr (), w)"
| "deleteImages P c (input # inputs) w =
     (case deleteImage P c input w of
        (Inl e, w') \<Rightarrow> (Inl e, w')
      | (Inr _, w') \<Rightarrow> deleteImages P c inputs (console_log LogSeparator w'))"

section \<open>Example surroundings\<close>

text \<open>
  The configuration of the specification's scenarios, and a platform for the concrete
  instances below: two local files, a clock, a remote store that holds the file
  \<^verbatim>\<open>images/old.png\<close> in the directory \<^verbatim>\<open>images\<close>, accepts uploads whose
  content is not empty and refuses a deletion that names no \<^verbatim>\<open>sha\<close>.
\<close>

definition acme :: config where
  "acme = \<lparr>owner = ''acme'', repo = ''pics'', token = ''t0ken'', branch = ''main''\<rparr>"

definition demo :: platform where
  "demo =
     \<lparr>existsSync = (\<lambda>p. p = ''./photo.png'' \<or> p = ''./empty.png''),
      readFileSync = (\<lambda>p. if p = ''./photo.png'' then Inr ''Man''
                          else if p = ''./empty.png'' then Inr []
                          else Inl (SystemError ''ENOENT'')),
      dateNow = (\<lambda>n. 1700000000000 + n),
      axiosGet = (\<lambda>history r.
         if req_url r = req_url (getRequest acme ''images/old.png'')
         then Inr (FileData \<lparr>sha = ''abc123''\<rparr>)
         else if req_url r = req_url (getRequest acme ''images'')
         then Inr (DirectoryData [\<lparr>sha = ''abc123''\<rparr>])
         else Inl (AxiosError (Some 404) (Some ''Not Found'') ''Request failed with status code 404'')),
      axiosPut = (\<lambda>history r.
         if (''content'', []) \<in> set (req_body r)
         then Inl (AxiosError (Some 422) (Some ''Invalid request'') ''Request failed with status code 422'')
         else Inr \<lparr>download_url = ''https://raw.githubusercontent.com/acme/pics/main/'' @
                       drop (length (apiUrl @ ''/repos/acme/pics/contents/'')) (req_url r)\<rparr>),
      axiosDelete = (\<lambda>history r.
         if map_of (req_body r) ''sha'' = None
         then Inl (AxiosError (Some 422) (Some ''sha was not supplied'')
                     ''Request failed with status code 422'')
         else Inr ()),
      regExpMatch = jsRegExp\<rparr>"

definition world0 :: world where
  "world0 = \<lparr>requests = [], console = [], ticks = 0\<rparr>"

section \<open>Properties of \<^verbatim>\<open>formatSize\<close>\<close>

lemma toFixed2_scaled:
  "toFixed2 (real b / 1024 ^ n) = (200 * b + 1024 ^ n) div (2 * 1024 ^ n)"
proof -
  have "real b / 1024 ^ n * 100 + 1 / 2 = real (200 * b + 1024 ^ n) / real (2 * 1024 ^ n)"
    by (simp add: field_simps)
  then have "\<lfloor>real b / 1024 ^ n * 100 + 1 / 2\<rfloor> = int ((200 * b + 1024 ^ n) div (2 * 1024 ^ n))"
    by (simp only: floor_divide_of_nat_eq)
  then show ?thesis by (simp add: toFixed2_def)
qed

lemma hundredths_bounds:
  assumes "(K::nat) \<le> b" "b < 1024 * K" "0 < K"
  shows "100 \<le> (200 * b + K) div (2 * K) \<and> (200 * b + K) div (2 * K) \<le> 102400"
proof
  have "100 * (2 * K) \<le> 200 * b + K" using assms by simp
  then show "100 \<le> (200 * b + K) div (2 * K)"
    using assms(3) by (simp add: less_eq_div_iff_mult_less_eq)
  have "200 * b + K < (102400 + 1) * (2 * K)" using assms by simp
  then have "(200 * b + K) div (2 * K) < 102400 + 1"
    using assms(3) by (simp add: div_less_iff_less_mult)
  then show "(200 * b + K) div (2 * K) \<le> 102400" by simp
qed

lemma show_nat_neq_Nil [simp]: "show_nat n \<noteq> []"
  by (subst show_nat.simps) simp

lemma show_nat_zero_iff: "show_nat n = ''0'' \<longleftrightarrow> n = 0"
proof
  assume h: "show_nat n = ''0''"
  show "n = 0"
  proof (cases "n < 10")
    case True
    have "n \<in> {0,1,2,3,4,5,6,7,8,9}" using True by auto
    then show ?thesis using h
      by (auto simp: show_nat.simps[of n] digit_char_def)
  next
    case False
    then show ?thesis using h by (simp add: show_nat.simps[of n])
  qed
next
  assume "n = 0" then show "show_nat n = ''0''" by (simp add: show_nat.simps digit_char_def)
qed

lemma showHundredths_whole: "showHundredths (100 * b) = show_nat b"
  by (simp add: showHundredths_def)

text \<open>The unit that is concatenated, by index.\<close>

lemma unit_cases:
  "concat_unit (array_get sizes i) =
     (if i = 0 then ''B'' else if i = 1 then ''KB'' else if i = 2 then ''MB''
      else if i = 3 then ''GB'' else if i = 4 then ''TB'' else ''undefined'')"
proof -
  consider "i < 0" | "i = 0" | "i = 1" | "i = 2" | "i = 3" | "i = 4" | "5 \<le> i" by linarith
  then show ?thesis
    by cases (simp_all add: concat_unit_def array_get_def sizes_def)
qed

lemma shownHundredths_at:
  assumes "unitIndex M b = int n"
  shows "shownHundredths M b = (200 * b + 1024 ^ n) div (2 * 1024 ^ n)"
  using assms toFixed2_scaled[of b n] by (simp add: shownHundredths_def powr_realpow)

lemma formatSize_shown:
  "0 < b \<Longrightarrow>
   formatSize M b =
     showHundredths (shownHundredths M b) @ '' '' @ concat_unit (array_get sizes (unitIndex M b))"
  by (simp add: formatSize_def shownHundredths_def Let_def)

lemma formatSize_at:
  assumes "0 < b" "unitIndex M b = int n"
  shows "formatSize M b =
     showHundredths ((200 * b + 1024 ^ n) div (2 * 1024 ^ n)) @ '' '' @
     concat_unit (array_get sizes (int n))"
  using formatSize_shown[OF assms(1), of M] shownHundredths_at[OF assms(2)] assms(2) by simp

text \<open>Whatever the runtime computes for the index, only 0 bytes print as \<^verbatim>\<open>0 B\<close>.\<close>

lemma formatSize_zero_iff: "formatSize M b = ''0 B'' \<longleftrightarrow> b = 0"
proof
  assume eq: "formatSize M b = ''0 B''"
  show "b = 0"
  proof (rule ccontr)
    assume "b \<noteq> 0"
    then have pos: "0 < b" by simp
    define H where "H = showHundredths (shownHundredths M b)"
    define i where "i = unitIndex M b"
    have f: "H @ '' '' @ concat_unit (array_get sizes i) = ''0 B''"
      using formatSize_shown[OF pos, of M] eq by (simp add: H_def i_def)
    show False
    proof (cases "i = 0")
      case True
      then have "unitIndex M b = int 0" by (simp add: i_def)
      then have "shownHundredths M b = (200 * b + 1024 ^ 0) div (2 * 1024 ^ 0)"
        by (rule shownHundredths_at)
      then have "shownHundredths M b = 100 * b" by simp
      then have "H = show_nat b" by (simp add: H_def showHundredths_whole)
      moreover have "concat_unit (array_get sizes i) = ''B''"
        using True by (simp add: concat_unit_def array_get_def sizes_def)
      ultimately have "show_nat b @ '' B'' = ''0 B''" using f by simp
      then have "show_nat b = ''0''" by simp
      then show False using \<open>b \<noteq> 0\<close> by (simp add: show_nat_zero_iff)
    next
      case False
      have "rev (H @ '' '' @ concat_unit (array_get sizes i)) = rev ''0 B''"
        using f by (rule arg_cong)
      then show False using False
        by (simp add: unit_cases split: if_splits)
    qed
  qed
next
  assume "b = 0" then show "formatSize M b = ''0 B''" by (simp add: formatSize_def)
qed

text \<open>The computed quotient is monotone in the byte count.\<close>

lemma logQuotient_mono:
  assumes "double_log M" "0 < a" "a \<le> b"
  shows "logQuotient M a \<le> logQuotient M b"
proof -
  have "Math_log M (real a) \<le> Math_log M (real b)"
    using assms by (simp add: double_log_def)
  then show ?thesis
    using assms(1) unfolding logQuotient_def double_log_def by blast
qed

lemma unitIndex_between:
  assumes "double_log M" "0 < lo" "lo \<le> b" "b \<le> hi"
    "real_of_int n \<le> logQuotient M lo" "logQuotient M hi < real_of_int n + 1"
  shows "unitIndex M b = n"
proof -
  have "0 < b" using assms(2,3) by simp
  have "logQuotient M lo \<le> logQuotient M b" using assms(1,2,3) by (rule logQuotient_mono)
  moreover have "logQuotient M b \<le> logQuotient M hi"
    using assms(1) \<open>0 < b\<close> assms(4) by (rule logQuotient_mono)
  ultimately have "real_of_int n \<le> logQuotient M b" "logQuotient M b < real_of_int n + 1"
    using assms(5,6) by simp_all
  then show ?thesis unfolding unitIndex_def by (simp add: floor_eq_iff)
qed

text \<open>
  Up to \<open>1024\<^sup>5 - 4\<close> the computed index is the exact one: \<open>n\<close> on
  \<open>1024\<^sup>n \<le> b < 1024\<^sup>n\<^sup>+\<^sup>1\<close>.
\<close>

lemma unitIndex_band:
  assumes d: "double_log M" and n: "1024 ^ n \<le> b" "b < 1024 ^ (n + 1)"
    and top: "b \<le> 1125899906842620"
  shows "n < 5 \<and> unitIndex M b = int n"
proof -
  have "(1024::nat) ^ n \<le> 1125899906842620" using n(1) top by (rule le_trans)
  also have "\<dots> < 1024 ^ 5" by simp
  finally have "n < 5" by (rule power_less_imp_less_exp[rotated]) simp
  then consider "n = 0" | "n = 1" | "n = 2" | "n = 3" | "n = 4" by linarith
  then have "unitIndex M b = int n"
  proof cases
    case 1
    have "unitIndex M b = 0"
      using d _ _ _ _ _
    proof (rule unitIndex_between[where lo = 1 and hi = 1023])
      show "real_of_int 0 \<le> logQuotient M 1" "logQuotient M 1023 < real_of_int 0 + 1"
        using d by (simp_all add: double_log_def)
    qed (use n 1 in simp_all)
    then show ?thesis using 1 by simp
  next
    case 2
    have "unitIndex M b = 1"
      using d _ _ _ _ _
    proof (rule unitIndex_between[where lo = 1024 and hi = 1048575])
      show "real_of_int 1 \<le> logQuotient M 1024" "logQuotient M 1048575 < real_of_int 1 + 1"
        using d by (simp_all add: double_log_def)
    qed (use n 2 in simp_all)
    then show ?thesis using 2 by simp
  next
    case 3
    have "unitIndex M b = 2"
      using d _ _ _ _ _
    proof (rule unitIndex_between[where lo = 1048576 and hi = 1073741823])
      show "real_of_int 2 \<le> logQuotient M 1048576" "logQuotient M 1073741823 < real_of_int 2 + 1"
        using d by (simp_all add: double_log_def)
    qed (use n 3 in simp_all)
    then show ?thesis using 3 by simp
  next
    case 4
    have "unitIndex M b = 3"
      using d _ _ _ _ _
    proof (rule unitIndex_between[where lo = 1073741824 and hi = 1099511627775])
      show "real_of_int 3 \<le> logQuotient M 1073741824"
        "logQuotient M 1099511627775 < real_of_int 3 + 1"
        using d by (simp_all add: double_log_def)
    qed (use n 4 in simp_all)
    then show ?thesis using 4 by simp
  next
    case 5
    have "unitIndex M b = 4"
      using d _ _ _ _ _
    proof (rule unitIndex_between[where lo = 1099511627776 and hi = 1125899906842620])
      show "real_of_int 4 \<le> logQuotient M 1099511627776"
        "logQuotient M 1125899906842620 < real_of_int 4 + 1"
        using d by (simp_all add: double_log_def)
    qed (use n 5 top in simp_all)
    then show ?thesis using 5 by simp
  qed
  with \<open>n < 5\<close> show ?thesis by simp
qed

text \<open>From \<open>1024\<^sup>5 - 3\<close> on the computed index is at least 5.\<close>

lemma unitIndex_top:
  assumes "double_log M" "1125899906842621 \<le> b"
  shows "5 \<le> unitIndex M b"
proof -
  have "logQuotient M 1125899906842621 \<le> logQuotient M b"
    using assms(1) _ assms(2) by (rule logQuotient_mono) simp
  moreover have "5 \<le> logQuotient M 1125899906842621"
    using assms(1) by (simp add: double_log_def)
  ultimately have "5 \<le> logQuotient M b" by simp
  then show ?thesis unfolding unitIndex_def by (simp add: le_floor_iff)
qed

text \<open>Every positive byte count lies between two consecutive powers of 1024.\<close>

lemma power_band:
  assumes "0 < (b::nat)"
  shows "\<exists>n. 1024 ^ n \<le> b \<and> b < 1024 ^ (n + 1)"
proof -
  have "1024 ^ (floorlog 1024 b - 1) \<le> b \<and> b < 1024 ^ floorlog 1024 b"
    using assms by (intro floorlog_bounds) simp_all
  moreover have "0 < floorlog 1024 b" using assms by (simp add: floorlog_def)
  then have "floorlog 1024 b = (floorlog 1024 b - 1) + 1" by simp
  ultimately show ?thesis by metis
qed

text \<open>The example runtime has the properties asked of double arithmetic.\<close>

lemma roundingMath_log_1024: "Math_log roundingMath 1024 = ln 1024"
  by (simp add: roundingMath_def)

lemma roundingMath_quotient_below:
  "b \<le> 1125899906842620 \<Longrightarrow> logQuotient roundingMath b = log 1024 (real b)"
  by (simp add: logQuotient_def roundingMath_def log_def)

lemma roundingMath_quotient_window:
  "1125899906842621 \<le> b \<Longrightarrow> b \<le> 1125899906842624 \<Longrightarrow> logQuotient roundingMath b = 5"
proof -
  assume h: "1125899906842621 \<le> b" "b \<le> 1125899906842624"
  have "log 1024 ((1024::real) ^ 5) = real 5" by (rule log_pow_cancel) simp_all
  moreover have "(1024::real) ^ 5 = 1125899906842624" by simp
  ultimately have "ln (1125899906842624::real) / ln 1024 = 5" by (simp add: log_def)
  moreover have "(1125899906842621::real) \<le> real b" "real b \<le> 1125899906842624"
    using h by simp_all
  ultimately show ?thesis by (simp add: logQuotient_def roundingMath_def)
qed

lemma log_below_power:
  assumes "0 < b" "b < 1024 ^ n"
  shows "log 1024 (real b) < real n"
proof -
  have "real b < 1024 ^ n" using assms(2) by (metis of_nat_less_iff of_nat_numeral of_nat_power)
  then show ?thesis using assms(1) by (simp add: log_less_iff powr_realpow)
qed

lemma log_above_power:
  assumes "1024 ^ n \<le> b"
  shows "real n \<le> log 1024 (real b)"
proof -
  have "(1024::real) ^ n \<le> real b" using assms by (metis of_nat_le_iff of_nat_numeral of_nat_power)
  moreover have "0 < real b" using assms by (cases "b = 0") auto
  ultimately show ?thesis by (simp add: le_log_iff powr_realpow)
qed

lemma roundingMath_double_log: "double_log roundingMath"
proof -
  have mono_log: "\<forall>x y. 0 < x \<and> x \<le> y \<longrightarrow> Math_log roundingMath x \<le> Math_log roundingMath y"
  proof (intro allI impI)
    fix x y :: real
    assume h: "0 < x \<and> x \<le> y"
    have a: "x \<le> 1125899906842624 \<Longrightarrow> ln x \<le> ln 1125899906842624" using h by simp
    have b: "1125899906842621 \<le> y \<Longrightarrow> ln 1125899906842624 \<le> ln y \<or> y \<le> 1125899906842624"
      using h by (cases "y \<le> 1125899906842624") simp_all
    show "Math_log roundingMath x \<le> Math_log roundingMath y"
      using h a b by (auto simp: roundingMath_def)
  qed
  have mono_div: "\<forall>x y. x \<le> y \<longrightarrow>
      fdiv roundingMath x (Math_log roundingMath 1024) \<le> fdiv roundingMath y (Math_log roundingMath 1024)"
    by (simp add: roundingMath_log_1024 roundingMath_def divide_right_mono)
  have q1: "0 \<le> logQuotient roundingMath 1"
    by (simp add: roundingMath_quotient_below)
  have lo: "\<And>b n. b \<le> 1125899906842620 \<Longrightarrow> 0 < b \<Longrightarrow> b < 1024 ^ n \<Longrightarrow>
      logQuotient roundingMath b < real n"
    by (simp add: roundingMath_quotient_below log_below_power)
  have hi: "\<And>b n. b \<le> 1125899906842620 \<Longrightarrow> 1024 ^ n \<le> b \<Longrightarrow>
      real n \<le> logQuotient roundingMath b"
    by (simp add: roundingMath_quotient_below log_above_power)
  have "logQuotient roundingMath 1023 < 1" using lo[of 1023 1] by simp
  moreover have "1 \<le> logQuotient roundingMath 1024" using hi[of 1024 1] by simp
  moreover have "logQuotient roundingMath 1048575 < 2" using lo[of 1048575 2] by simp
  moreover have "2 \<le> logQuotient roundingMath 1048576" using hi[of 1048576 2] by simp
  moreover have "logQuotient roundingMath 1073741823 < 3" using lo[of 1073741823 3] by simp
  moreover have "3 \<le> logQuotient roundingMath 1073741824" using hi[of 1073741824 3] by simp
  moreover have "logQuotient roundingMath 1099511627775 < 4" using lo[of 1099511627775 4] by simp
  moreover have "4 \<le> logQuotient roundingMath 1099511627776" using hi[of 1099511627776 4] by simp
  moreover have "logQuotient roundingMath 1125899906842620 < 5"
    using lo[of 1125899906842620 5] by simp
  moreover have "5 \<le> logQuotient roundingMath 1125899906842621"
    using roundingMath_quotient_window[of 1125899906842621] by simp
  ultimately show ?thesis
    unfolding double_log_def using mono_log mono_div q1 by blast
qed

lemma roundingMath_index_window:
  "1125899906842621 \<le> b \<Longrightarrow> b \<le> 1125899906842624 \<Longrightarrow> unitIndex roundingMath b = 5"
  by (simp add: unitIndex_def roundingMath_quotient_window)

text \<open>
  Claim C1, as the code has it. On every runtime \<^verbatim>\<open>formatSize\<close> returns \<^verbatim>\<open>0 B\<close>
  exactly when the byte count is 0. On a runtime with the properties \<open>double_log\<close> of
  double arithmetic, for every byte count \<open>b\<close> with \<open>0 < b \<le> 1024\<^sup>5 - 4\<close> it selects the
  unit \<open>sizes[n]\<close> of the table \<open>B, KB, MB, GB, TB\<close> with \<open>1024\<^sup>n \<le> b < 1024\<^sup>n\<^sup>+\<^sup>1\<close>, so
  that the scaled magnitude \<open>b / 1024\<^sup>n\<close> lies in \<open>[1, 1024)\<close>; the magnitude shown is
  that value rounded to hundredths and lies in \<open>[1, 1024]\<close>: the upper end is reached.
\<close>

theorem formatSize_unit_selection:
  "(formatSize M b = ''0 B'' \<longleftrightarrow> b = 0) \<and>
   (double_log M \<and> 0 < b \<and> b \<le> 1024 ^ 5 - 4 \<longrightarrow>
      (\<exists>n<5. unitIndex M b = int n \<and> 1024 ^ n \<le> b \<and> b < 1024 ^ (n + 1) \<and>
         formatSize M b = showHundredths (shownHundredths M b) @ '' '' @ sizes ! n \<and>
         100 \<le> shownHundredths M b \<and> shownHundredths M b \<le> 102400))"
proof (intro conjI impI)
  show "formatSize M b = ''0 B'' \<longleftrightarrow> b = 0" by (rule formatSize_zero_iff)
next
  assume h: "double_log M \<and> 0 < b \<and> b \<le> 1024 ^ 5 - 4"
  then have d: "double_log M" and pos: "0 < b" and top: "b \<le> 1125899906842620" by simp_all
  obtain n where n: "1024 ^ n \<le> b" "b < 1024 ^ (n + 1)" using power_band[OF pos] by blast
  have n5: "n < 5" and i: "unitIndex M b = int n"
    using unitIndex_band[OF d n top] by simp_all
  have u: "concat_unit (array_get sizes (unitIndex M b)) = sizes ! n"
    using n5 i by (simp add: concat_unit_def array_get_def sizes_def)
  have s: "shownHundredths M b = (200 * b + 1024 ^ n) div (2 * 1024 ^ n)"
    using i by (rule shownHundredths_at)
  have f: "formatSize M b = showHundredths (shownHundredths M b) @ '' '' @ sizes ! n"
    using formatSize_shown[OF pos, of M] u by simp
  have bd: "100 \<le> shownHundredths M b \<and> shownHundredths M b \<le> 102400"
    unfolding s using n by (intro hundredths_bounds) simp_all
  show "\<exists>n<5. unitIndex M b = int n \<and> 1024 ^ n \<le> b \<and> b < 1024 ^ (n + 1) \<and>
         formatSize M b = showHundredths (shownHundredths M b) @ '' '' @ sizes ! n \<and>
         100 \<le> shownHundredths M b \<and> shownHundredths M b \<le> 102400"
    using n5 i n f bd by blast
qed

text \<open>At 1536 bytes the function prints \<^verbatim>\<open>1.5 KB\<close>.\<close>

theorem formatSize_unit_selection_witness:
  "double_log roundingMath \<and> 0 < (1536::nat) \<and> (1536::nat) \<le> 1024 ^ 5 - 4 \<and>
   unitIndex roundingMath 1536 = 1 \<and> shownHundredths roundingMath 1536 = 150 \<and>
   formatSize roundingMath 1536 = ''1.5 KB''"
proof -
  note d = roundingMath_double_log
  obtain n where n: "n < 5" "unitIndex roundingMath 1536 = int n"
    "1024 ^ n \<le> (1536::nat)" "(1536::nat) < 1024 ^ (n + 1)"
    "formatSize roundingMath 1536 =
       showHundredths (shownHundredths roundingMath 1536) @ '' '' @ sizes ! n"
    using formatSize_unit_selection[of roundingMath 1536] d by auto
  have "n = 1"
  proof (rule ccontr)
    assume "n \<noteq> 1"
    then consider "n = 0" | "2 \<le> n" by linarith
    then show False
    proof cases
      case 1
      then show False using n(4) by simp
    next
      case 2
      then have "(1024::nat) ^ 2 \<le> 1024 ^ n" by (intro power_increasing) simp_all
      then show False using n(3) by simp
    qed
  qed
  then have i: "unitIndex roundingMath 1536 = 1" using n(2) by simp
  have h: "shownHundredths roundingMath 1536 = 150"
    using shownHundredths_at[of roundingMath 1536 1] i by simp
  have "formatSize roundingMath 1536 = ''1.5 KB''"
    using n(5) h \<open>n = 1\<close>
    by (simp add: showHundredths_def show_nat.simps digit_char_def sizes_def)
  then show ?thesis using d i h by simp
qed

text \<open>
  At \<open>1024\<^sup>2 - 1\<close> bytes the index is 1 on every runtime with these properties, the
  scaled value is \<open>1023.999...\<close> and \<^verbatim>\<open>toFixed(2)\<close> rounds it to \<^verbatim>\<open>1024.00\<close>.
\<close>

lemma formatSize_1048575:
  assumes "double_log M"
  shows "formatSize M 1048575 = ''1024 KB''" "shownHundredths M 1048575 = 102400"
proof -
  have i: "unitIndex M 1048575 = int 1"
    using unitIndex_band[OF assms, of 1 1048575] by simp
  show "shownHundredths M 1048575 = 102400"
    using shownHundredths_at[OF i] by simp
  show "formatSize M 1048575 = ''1024 KB''"
    using formatSize_at[OF _ i]
    by (simp add: showHundredths_def sizes_def array_get_def concat_unit_def show_nat.simps
        digit_char_def)
qed

text \<open>
  C1 as the specification words it asks for a shown magnitude below 1024: at 1048575
  bytes the function prints \<^verbatim>\<open>1024 KB\<close>.
\<close>

theorem formatSize_rounds_up_to_1024_counterexample:
  "double_log roundingMath \<and> formatSize roundingMath 1048575 = ''1024 KB'' \<and>
   \<not> shownHundredths roundingMath 1048575 < 102400"
  using roundingMath_double_log formatSize_1048575[OF roundingMath_double_log] by simp

text \<open>
  Claim C9. On a runtime with the properties \<open>double_log\<close>, for every byte count
  \<open>b \<ge> 1024\<^sup>5\<close> the unit index is at least 5, past the end of the five-element table:
  the lookup gives \<^verbatim>\<open>undefined\<close>, which the concatenation prints. The same already
  holds from \<open>1024\<^sup>5 - 3\<close> on, where the double-precision quotient has rounded to 5; up
  to \<open>1024\<^sup>5 - 4\<close> the lookup is defined.
\<close>

theorem formatSize_unit_out_of_range:
  "double_log M \<Longrightarrow>
   (1024 ^ 5 \<le> b \<longrightarrow>
      5 \<le> unitIndex M b \<and> array_get sizes (unitIndex M b) = None \<and>
      formatSize M b = showHundredths (shownHundredths M b) @ '' undefined'') \<and>
   (1024 ^ 5 - 3 \<le> b \<longrightarrow>
      5 \<le> unitIndex M b \<and> array_get sizes (unitIndex M b) = None \<and>
      formatSize M b = showHundredths (shownHundredths M b) @ '' undefined'') \<and>
   (0 < b \<and> b \<le> 1024 ^ 5 - 4 \<longrightarrow> array_get sizes (unitIndex M b) \<noteq> None)"
proof -
  assume d: "double_log M"
  have top: "5 \<le> unitIndex M b \<and> array_get sizes (unitIndex M b) = None \<and>
      formatSize M b = showHundredths (shownHundredths M b) @ '' undefined''"
    if "1125899906842621 \<le> b" for b
  proof -
    have i: "5 \<le> unitIndex M b" using d that by (rule unitIndex_top)
    have "0 < b" using that by simp
    then show ?thesis
      using i formatSize_shown[of b M] by (simp add: array_get_def sizes_def concat_unit_def)
  qed
  have low: "array_get sizes (unitIndex M b) \<noteq> None" if "0 < b \<and> b \<le> 1024 ^ 5 - 4"
  proof -
    have "0 < b" using that by simp
    then obtain n where n: "1024 ^ n \<le> b" "b < 1024 ^ (n + 1)" using power_band[of b] by blast
    have "n < 5 \<and> unitIndex M b = int n"
      using d n by (rule unitIndex_band) (use that in simp)
    then show ?thesis by (simp add: array_get_def sizes_def)
  qed
  show ?thesis using top[of b] low by simp
qed

text \<open>
  At \<open>1024\<^sup>5\<close> and at \<open>1024\<^sup>5 - 1\<close> bytes the function prints \<^verbatim>\<open>1 undefined\<close>; at
  \<open>1024\<^sup>5 - 4\<close> it prints \<^verbatim>\<open>1024 TB\<close>.
\<close>

theorem formatSize_unit_out_of_range_witness:
  "double_log roundingMath \<and>
   formatSize roundingMath (1024 ^ 5) = ''1 undefined'' \<and>
   formatSize roundingMath (1024 ^ 5 - 1) = ''1 undefined'' \<and>
   array_get sizes (unitIndex roundingMath (1024 ^ 5 - 4)) = Some ''TB'' \<and>
   formatSize roundingMath (1024 ^ 5 - 4) = ''1024 TB''"
proof -
  note d = roundingMath_double_log
  note t = formatSize_unit_out_of_range[OF d]
  have ia: "unitIndex roundingMath 1125899906842624 = int 5"
    and ib: "unitIndex roundingMath 1125899906842623 = int 5"
    by (simp_all add: roundingMath_index_window)
  have a: "formatSize roundingMath (1024 ^ 5) = ''1 undefined''"
    using t[of "1024 ^ 5"] shownHundredths_at[OF ia]
    by (simp add: showHundredths_def show_nat.simps digit_char_def)
  have b: "formatSize roundingMath (1024 ^ 5 - 1) = ''1 undefined''"
    using t[of "1024 ^ 5 - 1"] shownHundredths_at[OF ib]
    by (simp add: showHundredths_def show_nat.simps digit_char_def)
  have ic: "unitIndex roundingMath 1125899906842620 = int 4"
    using unitIndex_band[OF d, of 4 1125899906842620] by simp
  have c: "array_get sizes (unitIndex roundingMath (1024 ^ 5 - 4)) = Some ''TB''"
    using ic by (simp add: array_get_def sizes_def)
  have e: "formatSize roundingMath (1024 ^ 5 - 4) = ''1024 TB''"
    using formatSize_at[OF _ ic]
    by (simp add: showHundredths_def sizes_def array_get_def concat_unit_def show_nat.simps
        digit_char_def)
  show ?thesis using d a b c e by simp
qed

section \<open>Properties of the generated file name\<close>

lemmas path_eval = basename_def lastPortion_def isSlash_def extname_def basename_ext_def
  trailingSlashes_def suffix_def

lemma lastPortion_no_slash: "CHR ''/'' \<notin> set (lastPortion p)"
proof
  assume "CHR ''/'' \<in> set (lastPortion p)"
  then have "CHR ''/'' \<in> set (takeWhile (\<lambda>c. \<not> isSlash c) (dropWhile isSlash (rev p)))"
    by (simp add: lastPortion_def)
  then have "\<not> isSlash (CHR ''/'')" by (rule set_takeWhileD[THEN conjunct2])
  then show False by (simp add: isSlash_def)
qed

lemma lastPortion_id: "CHR ''/'' \<notin> set p \<Longrightarrow> lastPortion p = p"
proof -
  assume h: "CHR ''/'' \<notin> set p"
  then have a: "\<forall>c \<in> set (rev p). \<not> isSlash c" by (auto simp: isSlash_def)
  then have d: "dropWhile isSlash (rev p) = rev p"
    by (cases "rev p") auto
  have t: "takeWhile (\<lambda>c. \<not> isSlash c) (rev p) = rev p"
    using a by (simp add: takeWhile_eq_all_conv)
  show ?thesis unfolding lastPortion_def d t by simp
qed

lemma length_lastPortion: "length (lastPortion p) \<le> length p"
proof -
  have "length (takeWhile (\<lambda>c. \<not> isSlash c) (dropWhile isSlash (rev p)))
          \<le> length (dropWhile isSlash (rev p))"
    by (rule length_takeWhile_le)
  also have "\<dots> \<le> length (rev p)" by (rule length_dropWhile_le)
  finally show ?thesis by (simp add: lastPortion_def)
qed

text \<open>A portion with a dot splits at its last dot.\<close>

lemma split_last_dot:
  assumes "CHR ''.'' \<in> set part"
  shows "\<exists>pre. part = pre @ CHR ''.'' # rev (takeWhile (\<lambda>c. c \<noteq> CHR ''.'') (rev part))"
proof -
  let ?t = "takeWhile (\<lambda>c. c \<noteq> CHR ''.'') (rev part)"
  let ?d = "dropWhile (\<lambda>c. c \<noteq> CHR ''.'') (rev part)"
  have "?d \<noteq> []" using assms by (simp add: dropWhile_eq_Nil_conv)
  moreover have "\<not> (hd ?d \<noteq> CHR ''.'')" using \<open>?d \<noteq> []\<close> by (rule hd_dropWhile)
  ultimately obtain r where d: "?d = CHR ''.'' # r" by (cases ?d) auto
  have "rev part = ?t @ ?d" by simp
  then have "rev part = ?t @ CHR ''.'' # r" using d by simp
  then have "part = rev (?t @ CHR ''.'' # r)" by (metis rev_rev_ident)
  then have "part = rev r @ CHR ''.'' # rev ?t" by simp
  then show ?thesis by blast
qed

text \<open>Removing a suffix that the last portion ends with and is longer than.\<close>

lemma basename_ext_strip:
  assumes "lastPortion p = pre @ s" "pre \<noteq> []" "s \<noteq> []"
  shows "basename_ext p s = pre"
proof -
  have l: "length (pre @ s) \<le> length p" using length_lastPortion[of p] assms(1) by simp
  then have le: "length s \<le> length p" by simp
  have "length s < length p" using l assms(2) by (cases pre) auto
  then have ne: "s \<noteq> p" by auto
  have suf: "suffix s (lastPortion p)" using assms(1) by (simp add: suffix_def)
  have ne2: "s \<noteq> lastPortion p" using assms(1,2) by simp
  have tk: "take (length (lastPortion p) - length s) (lastPortion p) = pre"
    using assms(1) by simp
  show ?thesis
    unfolding basename_ext_def Let_def using assms(3) le ne suf ne2 tk by simp
qed

text \<open>
  The extension is empty, or the last portion is a non-empty stem followed by the
  extension, which starts at the portion's last dot.
\<close>

lemma extname_cases:
  "extname p = [] \<or>
   (\<exists>pre e. pre \<noteq> [] \<and> CHR ''.'' \<notin> set e \<and> lastPortion p = pre @ CHR ''.'' # e \<and>
      extname p = CHR ''.'' # e)"
proof (cases "extname p = []")
  case True
  then show ?thesis by simp
next
  case False
  define part where "part = lastPortion p"
  define e where "e = rev (takeWhile (\<lambda>c. c \<noteq> CHR ''.'') (rev part))"
  have ex: "extname p =
      (if CHR ''.'' \<notin> set part then []
       else if length part = length (CHR ''.'' # e) then []
       else if part = ''..'' then [] else CHR ''.'' # e)"
    by (simp add: extname_def Let_def part_def e_def)
  have dot: "CHR ''.'' \<in> set part" using False ex by (simp split: if_splits)
  have len: "length part \<noteq> length (CHR ''.'' # e)" using False ex by (simp split: if_splits)
  have eq: "extname p = CHR ''.'' # e" using False ex by (simp split: if_splits)
  obtain pre where pre: "part = pre @ CHR ''.'' # e"
    using split_last_dot[OF dot] unfolding e_def by blast
  have "pre \<noteq> []" using len pre by auto
  moreover have "CHR ''.'' \<notin> set e"
    unfolding e_def using set_takeWhileD[of "CHR ''.''" "\<lambda>c. c \<noteq> CHR ''.''" "rev part"] by auto
  ultimately show ?thesis using pre eq unfolding part_def by blast
qed

lemma stem_ext: "basename_ext p (extname p) @ extname p = lastPortion p"
proof -
  consider "extname p = []"
    | pre e where "pre \<noteq> []" "lastPortion p = pre @ CHR ''.'' # e" "extname p = CHR ''.'' # e"
    using extname_cases[of p] by blast
  then show ?thesis
  proof cases
    case 1
    then show ?thesis by (simp add: basename_ext_def)
  next
    case 2
    have "basename_ext p (CHR ''.'' # e) = pre"
      using 2(2) 2(1) by (rule basename_ext_strip) simp
    then show ?thesis using 2 by simp
  qed
qed

lemma digit_char_digit: "d < 10 \<Longrightarrow> digit_char d \<in> set ''0123456789''"
  unfolding digit_char_def by (rule nth_mem) simp

lemma show_nat_digits: "set (show_nat n) \<subseteq> set ''0123456789''"
proof (induction n rule: show_nat.induct)
  case (1 n)
  show ?case
  proof (cases "n < 10")
    case True
    then show ?thesis using digit_char_digit[of n] by (subst show_nat.simps) simp
  next
    case False
    have "n mod 10 < 10" by simp
    then have "digit_char (n mod 10) \<in> set ''0123456789''" by (rule digit_char_digit)
    then show ?thesis using False 1 by (subst show_nat.simps) simp
  qed
qed

lemma show_nat_no_slash: "CHR ''/'' \<notin> set (show_nat n)"
  using show_nat_digits[of n] by auto

lemma show_nat_no_dot: "CHR ''.'' \<notin> set (show_nat n)"
  using show_nat_digits[of n] by auto

lemma extname_no_dot:
  assumes "CHR ''/'' \<notin> set g" "CHR ''.'' \<notin> set g"
  shows "extname g = []"
  using assms by (simp add: extname_def lastPortion_id)

lemma extname_split:
  assumes "CHR ''/'' \<notin> set (x @ CHR ''.'' # e)" "CHR ''.'' \<notin> set e"
  shows "extname (x @ CHR ''.'' # e) =
           (if x = [] \<or> x @ CHR ''.'' # e = ''..'' then [] else CHR ''.'' # e)"
proof -
  define g where "g = x @ CHR ''.'' # e"
  have lp: "lastPortion g = g" using assms(1) unfolding g_def by (rule lastPortion_id)
  have "rev g = rev e @ CHR ''.'' # rev x" by (simp add: g_def)
  then have "takeWhile (\<lambda>c. c \<noteq> CHR ''.'') (rev g) = takeWhile (\<lambda>c. c \<noteq> CHR ''.'') (rev e)"
    by (simp add: takeWhile_tail)
  also have "\<dots> = rev e" using assms(2) by (auto simp: takeWhile_eq_all_conv)
  finally have tw: "rev (takeWhile (\<lambda>c. c \<noteq> CHR ''.'') (rev g)) = e" by simp
  have dot: "CHR ''.'' \<in> set g" by (simp add: g_def)
  have len: "length g = length (CHR ''.'' # e) \<longleftrightarrow> x = []" by (simp add: g_def)
  have "extname g = (if x = [] \<or> g = ''..'' then [] else CHR ''.'' # e)"
    unfolding extname_def Let_def lp tw using dot len by simp
  then show ?thesis by (simp add: g_def)
qed

lemma generateFileName_fst:
  "fst (generateFileName P name w) =
     basename_ext name (extname name) @ ''-'' @ show_nat (dateNow P (ticks w)) @ extname name"
  by (simp add: generateFileName_def Let_def)

lemma generated_no_slash:
  "CHR ''/'' \<notin> set (basename_ext name (extname name) @ ''-'' @ show_nat t @ extname name)"
proof -
  have "CHR ''/'' \<notin> set (basename_ext name (extname name) @ extname name)"
    using lastPortion_no_slash[of name] by (simp add: stem_ext)
  then show ?thesis using show_nat_no_slash[of t] by simp
qed

text \<open>
  A generated name has no separator, so it can only equal an original name that is its
  own last portion; that one is shorter.
\<close>

lemma generated_differs:
  "basename_ext name (extname name) @ ''-'' @ show_nat t @ extname name \<noteq> name"
proof
  assume eq: "basename_ext name (extname name) @ ''-'' @ show_nat t @ extname name = name"
  have "CHR ''/'' \<notin> set name" using generated_no_slash[of name t] unfolding eq .
  then have "lastPortion name = name" by (rule lastPortion_id)
  then have "basename_ext name (extname name) @ extname name = name" by (simp add: stem_ext)
  then have "length (basename_ext name (extname name) @ extname name) = length name" by simp
  moreover have "length (basename_ext name (extname name) @ ''-'' @ show_nat t @ extname name)
      = length name" using eq by simp
  ultimately show False by simp
qed

lemma extname_generated:
  assumes "lastPortion name \<noteq> ''..''"
  shows "extname (basename_ext name (extname name) @ ''-'' @ show_nat t @ extname name)
           = extname name"
proof -
  consider (none) "extname name = []"
    | (some) pre e where "pre \<noteq> []" "CHR ''.'' \<notin> set e"
        "lastPortion name = pre @ CHR ''.'' # e" "extname name = CHR ''.'' # e"
    using extname_cases[of name] by blast
  then show ?thesis
  proof cases
    case some
    have stem: "basename_ext name (CHR ''.'' # e) = pre"
      using some(3) some(1) by (rule basename_ext_strip) simp
    have ns: "CHR ''/'' \<notin> set ((pre @ ''-'' @ show_nat t) @ CHR ''.'' # e)"
      using generated_no_slash[of name t] some(4) stem by simp
    have "extname ((pre @ ''-'' @ show_nat t) @ CHR ''.'' # e) = CHR ''.'' # e"
      using extname_split[OF ns some(2)] by (auto simp: append_eq_Cons_conv)
    then show ?thesis using some(4) stem by simp
  next
    case none
    define part where "part = lastPortion name"
    have stem: "basename_ext name [] = part" by (simp add: basename_ext_def part_def)
    have ns: "CHR ''/'' \<notin> set (part @ ''-'' @ show_nat t)"
      using generated_no_slash[of name t] none stem by simp
    show ?thesis
    proof (cases "CHR ''.'' \<in> set part")
      case False
      then have "CHR ''.'' \<notin> set (part @ ''-'' @ show_nat t)"
        using show_nat_no_dot[of t] by simp
      then have "extname (part @ ''-'' @ show_nat t) = []"
        using ns by (intro extname_no_dot)
      then show ?thesis using none stem by simp
    next
      case True
      define e where "e = rev (takeWhile (\<lambda>c. c \<noteq> CHR ''.'') (rev part))"
      obtain pre where pre: "part = pre @ CHR ''.'' # e"
        using split_last_dot[OF True] unfolding e_def by blast
      have e_nd: "CHR ''.'' \<notin> set e"
        unfolding e_def using set_takeWhileD[of "CHR ''.''" "\<lambda>c. c \<noteq> CHR ''.''" "rev part"] by auto
      have "extname name =
          (if CHR ''.'' \<notin> set part then []
           else if length part = length (CHR ''.'' # e) then []
           else if part = ''..'' then [] else CHR ''.'' # e)"
        by (simp add: extname_def Let_def part_def e_def)
      then have "length part = length (CHR ''.'' # e)"
        using none True assms by (simp add: part_def split: if_splits)
      then have "pre = []" using pre by simp
      then have g: "part @ ''-'' @ show_nat t = [] @ CHR ''.'' # (e @ ''-'' @ show_nat t)"
        using pre by simp
      have ns': "CHR ''/'' \<notin> set ([] @ CHR ''.'' # (e @ ''-'' @ show_nat t))"
        using ns g by simp
      have nd': "CHR ''.'' \<notin> set (e @ ''-'' @ show_nat t)"
        using e_nd show_nat_no_dot[of t] by simp
      have "extname ([] @ CHR ''.'' # (e @ ''-'' @ show_nat t)) = []"
        using extname_split[OF ns' nd'] by simp
      then have "extname (part @ ''-'' @ show_nat t) = []" using g by simp
      then show ?thesis using none stem by simp
    qed
  qed
qed

text \<open>
  Claim C7. For every original name and every reading of the clock, the name
  \<^verbatim>\<open>generateFileName\<close> returns is the stem, a hyphen, the timestamp in decimal and the
  extension, where stem and extension are those of the original: together they are its
  last path portion. The generated name differs from the original and ends with the
  original's extension; its own extension, as \<^verbatim>\<open>path.extname\<close> computes it, is that
  of the original unless the original's last portion is \<^verbatim>\<open>..\<close>.
\<close>

theorem generateFileName_form:
  "fst (generateFileName P name w) =
     basename_ext name (extname name) @ ''-'' @ show_nat (dateNow P (ticks w)) @ extname name \<and>
   basename_ext name (extname name) @ extname name = lastPortion name \<and>
   fst (generateFileName P name w) \<noteq> name \<and>
   suffix (extname name) (fst (generateFileName P name w)) \<and>
   (lastPortion name \<noteq> ''..'' \<longrightarrow> extname (fst (generateFileName P name w)) = extname name)"
proof (intro conjI impI)
  show "fst (generateFileName P name w) =
     basename_ext name (extname name) @ ''-'' @ show_nat (dateNow P (ticks w)) @ extname name"
    by (rule generateFileName_fst)
  show "basename_ext name (extname name) @ extname name = lastPortion name"
    by (rule stem_ext)
  show "fst (generateFileName P name w) \<noteq> name"
    unfolding generateFileName_fst by (rule generated_differs)
  show "suffix (extname name) (fst (generateFileName P name w))"
    unfolding generateFileName_fst suffix_def
    by (rule exI[of _ "basename_ext name (extname name) @ ''-'' @ show_nat (dateNow P (ticks w))"]) simp
  show "extname (fst (generateFileName P name w)) = extname name" if "lastPortion name \<noteq> ''..''"
    unfolding generateFileName_fst using that by (rule extname_generated)
qed

lemma generateFileName_photo:
  "generateFileName demo ''photo.png'' w =
     (''photo-'' @ show_nat (1700000000000 + ticks w) @ ''.png'', w\<lparr>ticks := Suc (ticks w)\<rparr>)"
  by (simp add: generateFileName_def demo_def path_eval Let_def)

text \<open>
  \<^verbatim>\<open>photo.png\<close> at clock reading 1700000000000 becomes
  \<^verbatim>\<open>photo-1700000000000.png\<close>.
\<close>

theorem generateFileName_form_witness:
  "lastPortion ''photo.png'' \<noteq> ''..'' \<and>
   fst (generateFileName demo ''photo.png'' world0) = ''photo-1700000000000.png'' \<and>
   extname ''photo.png'' = ''.png'' \<and>
   extname (fst (generateFileName demo ''photo.png'' world0)) = ''.png''"
proof -
  have l: "lastPortion ''photo.png'' \<noteq> ''..''" by (simp add: path_eval)
  have e: "extname ''photo.png'' = ''.png''" by (simp add: path_eval)
  have g: "fst (generateFileName demo ''photo.png'' world0) = ''photo-1700000000000.png''"
    by (simp add: generateFileName_photo world0_def show_nat.simps digit_char_def)
  have "extname (fst (generateFileName demo ''photo.png'' world0)) = extname ''photo.png''"
    using generateFileName_form[of demo "''photo.png''" world0] l by blast
  then show ?thesis using l e g by simp
qed

text \<open>
  \<^verbatim>\<open>uploadImage\<close> without a custom name sends its request for the generated name of
  the base name of the local path.
\<close>

lemma uploadImage_generated_name:
  assumes "existsSync P localFilePath" "fileToBase64 P localFilePath = Inr base64Content"
  shows "requests (snd (uploadImage P c localFilePath remotePath None w)) =
     requests w @
       [putRequest c
          (or_else remotePath ''images'' @ ''/'' @ fst (generateFileName P (basename localFilePath) w))
          (fst (generateFileName P (basename localFilePath) w)) base64Content]"
  using assms
  by (simp add: uploadImage_def uploadImage_try_def Let_def issue_def console_log_def
      generateFileName_def split: sum.splits js_error.splits prod.splits)

section \<open>Properties of the uploader\<close>

text \<open>The accumulator of the loop of \<^verbatim>\<open>uploadImages\<close> only grows at its end.\<close>

lemma uploadImages_loop_acc:
  "uploadImages_loop P c rp ps acc w =
     (acc @ fst (uploadImages_loop P c rp ps [] w), snd (uploadImages_loop P c rp ps [] w))"
proof (induction ps arbitrary: acc w)
  case Nil
  show ?case by simp
next
  case (Cons p ps)
  obtain r w' where u: "uploadImage P c p rp None w = (r, w')" by (cases "uploadImage P c p rp None w")
  show ?case
  proof (cases r)
    case (Inl e)
    show ?thesis
      using u Inl Cons.IH[of "acc @ [[]]"] Cons.IH[of "[[]]"] by simp
  next
    case (Inr x)
    show ?thesis
      using u Inr Cons.IH[of "acc @ [x]"] Cons.IH[of "[x]"] by simp
  qed
qed

lemma uploadImages_Nil: "uploadImages P c [] rp w = ([], w)"
  by (simp add: uploadImages_def)

lemma uploadImages_Cons:
  "uploadImages P c (p # ps) rp w =
     (case uploadImage P c p rp None w of
        (Inr x, w') \<Rightarrow> (x # fst (uploadImages P c ps rp w'), snd (uploadImages P c ps rp w'))
      | (Inl e, w') \<Rightarrow>
          ([] # fst (uploadImages P c ps rp (console_log (ErrBatchUploadFailed p e) w')),
           snd (uploadImages P c ps rp (console_log (ErrBatchUploadFailed p e) w'))))"
proof -
  obtain r w' where u: "uploadImage P c p rp None w = (r, w')" by (cases "uploadImage P c p rp None w")
  show ?thesis
  proof (cases r)
    case (Inl e)
    then show ?thesis
      using u uploadImages_loop_acc[of P c rp ps "[[]]"] by (simp add: uploadImages_def)
  next
    case (Inr x)
    then show ?thesis
      using u uploadImages_loop_acc[of P c rp ps "[x]"] by (simp add: uploadImages_def)
  qed
qed

lemma uploadImages_length: "length (fst (uploadImages P c ps rp w)) = length ps"
proof (induction ps arbitrary: w)
  case Nil
  show ?case by (simp add: uploadImages_Nil)
next
  case (Cons p ps)
  show ?case
    by (simp add: uploadImages_Cons Cons.IH split: prod.splits sum.splits)
qed

text \<open>The world after a batch is the world after its rounds, one after the other.\<close>

lemma uploadImages_world:
  "snd (uploadImages P c ps rp w) = foldl (uploadRound P c rp) w ps"
proof (induction ps arbitrary: w)
  case Nil
  show ?case by (simp add: uploadImages_Nil)
next
  case (Cons p ps)
  obtain r w' where u: "uploadImage P c p rp None w = (r, w')" by (cases "uploadImage P c p rp None w")
  show ?case
    using u Cons.IH by (cases r) (simp_all add: uploadImages_Cons uploadRound_def)
qed

lemma uploadImages_nth:
  "i < length ps \<Longrightarrow>
   fst (uploadImages P c ps rp w) ! i =
     (case fst (uploadImage P c (ps ! i) rp None (foldl (uploadRound P c rp) w (take i ps))) of
        Inr x \<Rightarrow> x | Inl e \<Rightarrow> [])"
proof (induction ps arbitrary: w i)
  case Nil
  then show ?case by simp
next
  case (Cons p ps)
  obtain r w' where u: "uploadImage P c p rp None w = (r, w')" by (cases "uploadImage P c p rp None w")
  show ?case
  proof (cases i)
    case 0
    then show ?thesis using u
      by (cases r) (simp_all add: uploadImages_Cons)
  next
    case (Suc j)
    then have j: "j < length ps" using Cons.prems by simp
    show ?thesis
    proof (cases r)
      case (Inl e)
      then show ?thesis
        using u Suc Cons.IH[OF j, of "console_log (ErrBatchUploadFailed p e) w'"]
        by (simp add: uploadImages_Cons uploadRound_def)
    next
      case (Inr x)
      then show ?thesis
        using u Suc Cons.IH[OF j, of w'] by (simp add: uploadImages_Cons uploadRound_def)
    qed
  qed
qed

text \<open>
  Claim C2. For every list of local paths, \<^verbatim>\<open>uploadImages\<close> returns a list of the
  same length. Its entry \<open>i\<close> is decided by the single upload of path \<open>i\<close>: the download
  URL that \<^verbatim>\<open>uploadImage\<close> returned, or the empty string when it threw. That upload
  runs in the world the rounds before it have left, where a round leaves the world in
  which its \<^verbatim>\<open>uploadImage\<close> returned or threw (with the line of the \<^verbatim>\<open>catch\<close>
  in the second case); and the batch ends in the world after the last round. So every
  path is attempted, in order, whatever happened to the ones before it, and what each
  attempt did (its request, its console lines, its clock reading) is kept.
\<close>

theorem uploadImages_positional:
  "length (fst (uploadImages P c filePaths remotePath w)) = length filePaths \<and>
   (\<forall>i<length filePaths.
      fst (uploadImages P c filePaths remotePath w) ! i =
        (case fst (uploadImage P c (filePaths ! i) remotePath None
                     (foldl (\<lambda>w filePath.
                               case uploadImage P c filePath remotePath None w of
                                 (Inr url, w') \<Rightarrow> w'
                               | (Inl error, w') \<Rightarrow>
                                   console_log (ErrBatchUploadFailed filePath error) w')
                        w (take i filePaths))) of
           Inr downloadUrl \<Rightarrow> downloadUrl
         | Inl error \<Rightarrow> [])) \<and>
   snd (uploadImages P c filePaths remotePath w) =
     foldl (\<lambda>w filePath.
              case uploadImage P c filePath remotePath None w of
                (Inr url, w') \<Rightarrow> w'
              | (Inl error, w') \<Rightarrow> console_log (ErrBatchUploadFailed filePath error) w')
       w filePaths"
proof -
  have r: "(\<lambda>w filePath.
              case uploadImage P c filePath remotePath None w of
                (Inr url, w') \<Rightarrow> w'
              | (Inl error, w') \<Rightarrow> console_log (ErrBatchUploadFailed filePath error) w')
      = uploadRound P c remotePath"
    by (intro ext) (simp add: uploadRound_def)
  show ?thesis
    unfolding r
    using uploadImages_length[of P c filePaths remotePath w]
      uploadImages_nth[of _ filePaths P c remotePath w]
      uploadImages_world[of P c filePaths remotePath w]
    by simp
qed

lemma demo_missing: "\<not> existsSync demo ''./missing.png''"
  by (simp add: demo_def)

lemma base64_Man: "base64 (map of_char ''Man'') = ''TWFu''"
  by (simp add: b64_def)

text \<open>An upload of the example file: its result, its request and its clock reading.\<close>

lemma uploadImage_photo_world:
  "uploadImage demo acme ''./photo.png'' None None w =
     (Inr (''https://raw.githubusercontent.com/acme/pics/main/images/photo-'' @
           show_nat (1700000000000 + ticks w) @ ''.png''),
      w\<lparr>ticks := Suc (ticks w),
        requests := requests w @
          [putRequest acme (''images/photo-'' @ show_nat (1700000000000 + ticks w) @ ''.png'')
             (''photo-'' @ show_nat (1700000000000 + ticks w) @ ''.png'') ''TWFu''],
        console := console w @
          [LogUploading ''./photo.png'',
           LogTarget (''images/photo-'' @ show_nat (1700000000000 + ticks w) @ ''.png''),
           LogUploadOk,
           LogImageUrl (''https://raw.githubusercontent.com/acme/pics/main/images/photo-'' @
             show_nat (1700000000000 + ticks w) @ ''.png'')]\<rparr>)"
proof -
  have b: "basename ''./photo.png'' = ''photo.png''" by (simp add: path_eval)
  have e: "existsSync demo ''./photo.png''" by (simp add: demo_def)
  have r: "fileToBase64 demo ''./photo.png'' = Inr ''TWFu''"
    using base64_Man by (simp add: fileToBase64_def demo_def)
  have p: "\<And>h rp n. axiosPut demo h (putRequest acme rp n ''TWFu'') =
      Inr \<lparr>download_url = ''https://raw.githubusercontent.com/acme/pics/main/'' @ rp\<rparr>"
    by (simp add: demo_def putRequest_def acme_def apiUrl_def)
  show ?thesis
    by (simp add: uploadImage_def uploadImage_try_def e b generateFileName_photo r p
        or_else_def Let_def issue_def console_log_def)
qed

lemma putRequest_acme_url:
  "req_url (putRequest acme remoteFilePath fileName base64Content) =
     ''https://api.github.com/repos/acme/pics/contents/'' @ remoteFilePath"
  by (simp add: putRequest_def apiUrl_def acme_def)

lemma world0_fields: "ticks world0 = 0" "requests world0 = []" "console world0 = []"
  by (simp_all add: world0_def)

lemma uploadImage_missing_world:
  "uploadImage demo acme ''./missing.png'' None None w =
     (Inl (LocalFileNotFound ''./missing.png''), w)"
  by (simp add: uploadImage_def uploadImage_try_def demo_missing)

text \<open>
  A batch of an existing file, a missing one and the existing one again: the second
  entry is the empty string, the third upload reads the clock after the first, and the
  batch has issued two requests.
\<close>

theorem uploadImages_positional_witness:
  "fst (uploadImages demo acme [''./photo.png'', ''./missing.png'', ''./photo.png''] None world0) =
     [''https://raw.githubusercontent.com/acme/pics/main/images/photo-1700000000000.png'',
      [],
      ''https://raw.githubusercontent.com/acme/pics/main/images/photo-1700000000001.png''] \<and>
   map req_url
     (requests (snd (uploadImages demo acme
        [''./photo.png'', ''./missing.png'', ''./photo.png''] None world0))) =
     [''https://api.github.com/repos/acme/pics/contents/images/photo-1700000000000.png'',
      ''https://api.github.com/repos/acme/pics/contents/images/photo-1700000000001.png'']"
proof -
  define ps where "ps = [''./photo.png'', ''./missing.png'', ''./photo.png'']"
  define xs where "xs = fst (uploadImages demo acme ps None world0)"
  define round where "round = (\<lambda>w filePath.
      case uploadImage demo acme filePath None None w of
        (Inr url, w') \<Rightarrow> w'
      | (Inl error, w') \<Rightarrow> console_log (ErrBatchUploadFailed filePath error) w')"
  note t = uploadImages_positional[of demo acme ps None world0, folded xs_def round_def]
  have len: "length xs = 3" using t[THEN conjunct1] by (simp add: ps_def)
  have s0: "show_nat 1700000000000 = ''1700000000000''"
    and s1: "show_nat 1700000000001 = ''1700000000001''"
    by (simp_all add: show_nat.simps digit_char_def)
  define w1 where "w1 = round world0 ''./photo.png''"
  define w2 where "w2 = round w1 ''./missing.png''"
  define w3 where "w3 = round w2 ''./photo.png''"
  have t1: "ticks w1 = 1" and r1: "map req_url (requests w1) =
      [''https://api.github.com/repos/acme/pics/contents/images/photo-1700000000000.png'']"
    by (simp_all add: w1_def round_def uploadImage_photo_world world0_fields s0
        putRequest_acme_url)
  have t2: "ticks w2 = 1" and r2: "requests w2 = requests w1"
    by (simp_all add: w2_def round_def uploadImage_missing_world console_log_def t1)
  have r3: "map req_url (requests w3) =
      [''https://api.github.com/repos/acme/pics/contents/images/photo-1700000000000.png'',
       ''https://api.github.com/repos/acme/pics/contents/images/photo-1700000000001.png'']"
    by (simp add: w3_def round_def uploadImage_photo_world t2 r2 r1 s1 putRequest_acme_url)
  have f0: "foldl round world0 (take 0 ps) = world0"
    and f1: "foldl round world0 (take 1 ps) = w1"
    and f2: "foldl round world0 (take 2 ps) = w2"
    and f3: "foldl round world0 ps = w3"
    by (simp_all add: ps_def w1_def w2_def w3_def)
  have p0: "ps ! 0 = ''./photo.png''" and p1: "ps ! 1 = ''./missing.png''"
    and p2: "ps ! 2 = ''./photo.png''"
    by (simp_all add: ps_def)
  have "0 < length ps" by (simp add: ps_def)
  then have "xs ! 0 =
      (case fst (uploadImage demo acme (ps ! 0) None None (foldl round world0 (take 0 ps))) of
           Inr downloadUrl \<Rightarrow> downloadUrl | Inl error \<Rightarrow> [])"
    using t[THEN conjunct2, THEN conjunct1] by blast
  then have x0: "xs ! 0 =
      ''https://raw.githubusercontent.com/acme/pics/main/images/photo-1700000000000.png''"
    unfolding p0 f0 uploadImage_photo_world by (simp add: world0_fields s0)
  have "1 < length ps" by (simp add: ps_def)
  then have "xs ! 1 =
      (case fst (uploadImage demo acme (ps ! 1) None None (foldl round world0 (take 1 ps))) of
           Inr downloadUrl \<Rightarrow> downloadUrl | Inl error \<Rightarrow> [])"
    using t[THEN conjunct2, THEN conjunct1] by blast
  then have x1: "xs ! 1 = []"
    unfolding p1 f1 uploadImage_missing_world by simp
  have "2 < length ps" by (simp add: ps_def)
  then have "xs ! 2 =
      (case fst (uploadImage demo acme (ps ! 2) None None (foldl round world0 (take 2 ps))) of
           Inr downloadUrl \<Rightarrow> downloadUrl | Inl error \<Rightarrow> [])"
    using t[THEN conjunct2, THEN conjunct1] by blast
  then have x2: "xs ! 2 =
      ''https://raw.githubusercontent.com/acme/pics/main/images/photo-1700000000001.png''"
    unfolding p2 f2 uploadImage_photo_world by (simp add: t2 s1)
  obtain e0 e1 e2 where e: "xs = [e0, e1, e2]"
    using len by (auto simp: length_Suc_conv numeral_3_eq_3)
  have a: "xs =
      [''https://raw.githubusercontent.com/acme/pics/main/images/photo-1700000000000.png'',
       [],
       ''https://raw.githubusercontent.com/acme/pics/main/images/photo-1700000000001.png'']"
    using x0 x1 x2 unfolding e by simp
  have "snd (uploadImages demo acme ps None world0) = w3"
    using t[THEN conjunct2, THEN conjunct2] by (simp only: f3)
  then have b: "map req_url (requests (snd (uploadImages demo acme ps None world0))) =
     [''https://api.github.com/repos/acme/pics/contents/images/photo-1700000000000.png'',
      ''https://api.github.com/repos/acme/pics/contents/images/photo-1700000000001.png'']"
    by (simp only: r3)
  show ?thesis using a b by (simp only: xs_def ps_def)
qed

text \<open>
  Claim C8. When the local path does not exist, \<^verbatim>\<open>uploadImage\<close> throws the
  file-not-found error of the source, which carries the path, and leaves the world as
  it was: no request has been issued, nothing was printed, the clock was not read.
\<close>

theorem uploadImage_missing_file:
  "\<not> existsSync P localFilePath \<Longrightarrow>
   uploadImage P c localFilePath remotePath customFileName w =
     (Inl (LocalFileNotFound localFilePath), w)"
  by (simp add: uploadImage_def uploadImage_try_def)

text \<open>A missing file on the example platform.\<close>

theorem uploadImage_missing_file_witness:
  "\<not> existsSync demo ''./missing.png'' \<and>
   uploadImage demo acme ''./missing.png'' (Some ''shots'') None world0 =
     (Inl (LocalFileNotFound ''./missing.png''), world0) \<and>
   requests (snd (uploadImage demo acme ''./missing.png'' (Some ''shots'') None world0)) = []"
  using uploadImage_missing_file[of demo "''./missing.png''" acme "Some ''shots''" None world0]
    demo_missing
  by (simp add: world0_def)

section \<open>Properties of \<^verbatim>\<open>parsePath\<close>\<close>

lemmas rx_eval = jsRegExp_def rawPattern_def cdnPattern_def backslash_def isWordChar_def
  quantify_def isLineTerminator_def

lemmas str_eval = startsWith_def indexOf_def substring_def

lemma demo_regExp: "regExpMatch demo = jsRegExp"
  by (simp add: demo_def)

lemma parsePath_not_http: "\<not> startsWith input ''http'' \<Longrightarrow> parsePath P c input = Inr input"
  by (simp add: parsePath_def)

lemma parsePath_raw_first:
  "startsWith input ''http'' \<Longrightarrow> regExpMatch P (rawPattern c) input = Inr (Some g) \<Longrightarrow>
   parsePath P c input = Inr g"
  by (simp add: parsePath_def)

lemma raw_old_png:
  assumes "owner c = ''acme''" "repo c = ''pics''" "branch c = ''main''"
  shows "jsRegExp (rawPattern c) ''https://raw.githubusercontent.com/acme/pics/main/images/old.png''
           = Inr (Some ''images/old.png'')"
  using assms by (simp add: rx_eval)

lemma parsePath_acme_eval:
  "parsePath demo acme ''http-assets/pics/main/a.png'' = Inr ''a.png''"
  "parsePath demo acme ''http-x/pics/main/http-y/pics/main/z.png'' = Inr ''http-y/pics/main/z.png''"
  "parsePath demo acme ''http-y/pics/main/z.png'' = Inr ''z.png''"
  by (simp_all add: parsePath_def demo_regExp acme_def rx_eval str_eval)

text \<open>
  The pattern built from configuration values of the kind \<open>configText\<close> is parsed to
  its atoms one for one.
\<close>

lemma parse_rx_text:
  "configText s \<Longrightarrow>
   parse_rx (s @ rest) cur stack n = parse_rx rest (rev (map rx_of_char s) @ cur) stack n"
proof (induction s arbitrary: cur)
  case Nil
  show ?case by simp
next
  case (Cons ch s)
  then have s: "configText s" and ch: "ch \<noteq> backslash" "ch \<notin> set ''()?*+[]{}|^$''"
    by (simp_all add: configText_def)
  have "parse_rx ((ch # s) @ rest) cur stack n = parse_rx (s @ rest) (rx_of_char ch # cur) stack n"
    using ch by (simp add: rx_of_char_def)
  also have "\<dots> = parse_rx rest (rev (map rx_of_char s) @ rx_of_char ch # cur) stack n"
    using s by (rule Cons.IH)
  finally show ?case by simp
qed

lemma parse_rawPattern:
  assumes "configText (owner c)" "configText (repo c)" "configText (branch c)"
  shows "parse_rx (rawPattern c) [] [] 1 = Inr (seq_of (rawItems c @ [capturePath]))"
  using assms
  by (simp add: rawPattern_def parse_rx_text backslash_def isWordChar_def quantify_def
      rawItems_def capturePath_def)

lemma seq_of_Cons: "rs \<noteq> [] \<Longrightarrow> seq_of (r # rs) = RSeq r (seq_of rs)"
  by (cases rs) simp_all

lemma rx_match_accepts:
  "accepts r ch \<Longrightarrow> rx_match r (ch # s, caps) = [(s, caps)]"
  by (auto simp: accepts_def)

lemma rx_match_items:
  "list_all2 accepts items t \<Longrightarrow> rs \<noteq> [] \<Longrightarrow>
   rx_match (seq_of (items @ rs)) (t @ s, caps) = rx_match (seq_of rs) (s, caps)"
proof (induction items t rule: list_all2_induct)
  case Nil
  show ?case by simp
next
  case (Cons r items ch t)
  have "seq_of ((r # items) @ rs) = RSeq r (seq_of (items @ rs))"
    using Cons.prems by (simp add: seq_of_Cons)
  then show ?case
    using Cons.hyps(1) Cons.IH[OF Cons.prems] by (simp add: rx_match_accepts)
qed

lemma accepts_RChar: "list_all2 accepts (map RChar s) s"
  by (induction s) (simp_all add: accepts_def)

lemma accepts_rx_of_char: "list_all2 accepts (map rx_of_char s) s"
  by (induction s) (simp_all add: accepts_def rx_of_char_def isLineTerminator_def)

lemma accepts_rawItems: "list_all2 accepts (rawItems c) (rawText c)"
  unfolding rawItems_def rawText_def
  by (intro list_all2_appendI accepts_RChar accepts_rx_of_char) (simp_all add: accepts_def)

lemma rx_match_star_any:
  "list_all (\<lambda>ch. \<not> isLineTerminator ch) s \<Longrightarrow>
   \<exists>more. rx_match (RStar RAny) (s, caps) = ([], caps) # more"
proof (induction s)
  case Nil
  show ?case by simp
next
  case (Cons ch s)
  then obtain more where "rx_match (RStar RAny) (s, caps) = ([], caps) # more" by auto
  then show ?case using Cons.prems by simp
qed

lemma rx_match_capturePath:
  assumes "path \<noteq> []" "list_all (\<lambda>ch. \<not> isLineTerminator ch) path"
  shows "\<exists>more. rx_match capturePath (path, caps) = ([], caps(1 \<mapsto> path)) # more"
proof -
  obtain ch s where p: "path = ch # s" using assms(1) by (cases path) auto
  then have "list_all (\<lambda>ch. \<not> isLineTerminator ch) s" and ch: "\<not> isLineTerminator ch"
    using assms(2) by simp_all
  then obtain more where "rx_match (RStar RAny) (s, caps) = ([], caps) # more"
    using rx_match_star_any by blast
  then show ?thesis using ch by (simp add: capturePath_def p)
qed

lemma rawItems_head: "\<exists>items. rawItems c = RChar CHR ''r'' # items"
  by (simp add: rawItems_def)

lemma rx_search_skip:
  assumes "CHR ''r'' \<notin> set pre" "R = seq_of (RChar CHR ''r'' # rs)" "rs \<noteq> []"
  shows "rx_search R (pre @ s) = rx_search R s"
  using assms(1)
proof (induction pre)
  case Nil
  show ?case by simp
next
  case (Cons ch pre)
  have R: "R = RSeq (RChar CHR ''r'') (seq_of rs)" using assms(2,3) by (simp add: seq_of_Cons)
  have "ch \<noteq> CHR ''r''" using Cons.prems by auto
  then have "rx_match R (ch # pre @ s, Map.empty) = []" by (simp add: R)
  then have "rx_search R ((ch # pre) @ s) = rx_search R (pre @ s)"
    by (subst rx_search.simps) simp
  then show ?case using Cons by simp
qed

lemma jsRegExp_rawPattern:
  assumes "configText (owner c)" "configText (repo c)" "configText (branch c)"
    "CHR ''r'' \<notin> set pre" "path \<noteq> []" "list_all (\<lambda>ch. \<not> isLineTerminator ch) path"
  shows "jsRegExp (rawPattern c) (pre @ rawText c @ path) = Inr (Some path)"
proof -
  define R where "R = seq_of (rawItems c @ [capturePath])"
  obtain items where items: "rawItems c = RChar CHR ''r'' # items"
    using rawItems_head by blast
  have R': "R = seq_of (RChar CHR ''r'' # (items @ [capturePath]))" by (simp add: R_def items)
  have skip: "rx_search R (pre @ rawText c @ path) = rx_search R (rawText c @ path)"
    using assms(4) R' by (rule rx_search_skip) simp
  have "rx_match R (rawText c @ path, Map.empty) = rx_match (seq_of [capturePath]) (path, Map.empty)"
    unfolding R_def using accepts_rawItems by (rule rx_match_items) simp
  moreover obtain more where
    "rx_match capturePath (path, Map.empty) = ([], [1 \<mapsto> path]) # more"
    using rx_match_capturePath[OF assms(5,6)] by blast
  ultimately have "rx_match R (rawText c @ path, Map.empty) = ([], [1 \<mapsto> path]) # more" by simp
  then have "rx_search R (rawText c @ path) = Some [1 \<mapsto> path]"
    by (subst rx_search.simps) simp
  then have "rx_search R (pre @ rawText c @ path) = Some [1 \<mapsto> path]" using skip by simp
  then show ?thesis
    using parse_rawPattern[OF assms(1,2,3)] by (simp add: jsRegExp_def R_def)
qed

text \<open>
  Claim C6. With owner \<^verbatim>\<open>acme\<close>, repository \<^verbatim>\<open>pics\<close> and branch \<^verbatim>\<open>main\<close>,
  \<^verbatim>\<open>parsePath\<close> resolves
  \<^verbatim>\<open>https://raw.githubusercontent.com/acme/pics/main/images/old.png\<close> to
  \<^verbatim>\<open>images/old.png\<close>. In general, for configuration values of the kind
  \<open>configText\<close>, a URL made of a prefix that begins with \<^verbatim>\<open>http\<close> and has no
  \<^verbatim>\<open>r\<close> (as \<^verbatim>\<open>https://\<close>), the raw-content domain, owner, repository and branch
  and a non-empty path without line terminator is resolved to that path. And for every
  engine and configuration, on an input that begins with \<^verbatim>\<open>http\<close> the raw-content
  pattern is tried first: when it matches, the result is its capture group, whatever
  the later branches would give.
\<close>

theorem parsePath_raw_url:
  "(regExpMatch P = jsRegExp \<and> owner c = ''acme'' \<and> repo c = ''pics'' \<and> branch c = ''main'' \<longrightarrow>
      parsePath P c ''https://raw.githubusercontent.com/acme/pics/main/images/old.png''
        = Inr ''images/old.png'') \<and>
   (regExpMatch P = jsRegExp \<and>
    configText (owner c) \<and> configText (repo c) \<and> configText (branch c) \<and>
    startsWith pre ''http'' \<and> CHR ''r'' \<notin> set pre \<and>
    path \<noteq> [] \<and> list_all (\<lambda>ch. \<not> isLineTerminator ch) path \<longrightarrow>
      parsePath P c
        (pre @ ''raw.githubusercontent.com/'' @ owner c @ ''/'' @ repo c @ ''/'' @ branch c @
         ''/'' @ path) = Inr path) \<and>
   (startsWith input ''http'' \<and> regExpMatch P (rawPattern c) input = Inr (Some g) \<longrightarrow>
      parsePath P c input = Inr g)"
proof (intro conjI impI)
  assume h: "regExpMatch P = jsRegExp \<and> owner c = ''acme'' \<and> repo c = ''pics'' \<and> branch c = ''main''"
  have s: "startsWith ''https://raw.githubusercontent.com/acme/pics/main/images/old.png'' ''http''"
    by (simp add: startsWith_def)
  have "regExpMatch P (rawPattern c) ''https://raw.githubusercontent.com/acme/pics/main/images/old.png''
          = Inr (Some ''images/old.png'')"
    using h raw_old_png[of c] by simp
  with s show "parsePath P c ''https://raw.githubusercontent.com/acme/pics/main/images/old.png''
        = Inr ''images/old.png''"
    by (rule parsePath_raw_first)
next
  assume h: "regExpMatch P = jsRegExp \<and>
    configText (owner c) \<and> configText (repo c) \<and> configText (branch c) \<and>
    startsWith pre ''http'' \<and> CHR ''r'' \<notin> set pre \<and>
    path \<noteq> [] \<and> list_all (\<lambda>ch. \<not> isLineTerminator ch) path"
  define input where "input = pre @ rawText c @ path"
  have i: "pre @ ''raw.githubusercontent.com/'' @ owner c @ ''/'' @ repo c @ ''/'' @ branch c @
         ''/'' @ path = input"
    by (simp add: input_def rawText_def)
  have tk: "take (length ''http'') pre = ''http''"
    using h unfolding startsWith_def by blast
  have "length (take (length ''http'') pre) = length ''http''" by (simp only: tk)
  then have "length ''http'' \<le> length pre" by simp
  then have "take (length ''http'') input = take (length ''http'') pre"
    by (simp add: input_def)
  then have s: "startsWith input ''http''"
    unfolding startsWith_def by (simp only: tk)
  have "jsRegExp (rawPattern c) input = Inr (Some path)"
    unfolding input_def using h by (intro jsRegExp_rawPattern) simp_all
  then have "regExpMatch P (rawPattern c) input = Inr (Some path)" using h by simp
  with s have "parsePath P c input = Inr path" by (rule parsePath_raw_first)
  then show "parsePath P c
        (pre @ ''raw.githubusercontent.com/'' @ owner c @ ''/'' @ repo c @ ''/'' @ branch c @
         ''/'' @ path) = Inr path"
    by (simp only: i)
next
  assume "startsWith input ''http'' \<and> regExpMatch P (rawPattern c) input = Inr (Some g)"
  then show "parsePath P c input = Inr g" by (simp add: parsePath_raw_first)
qed

text \<open>
  The scenario on the example platform; a repository whose name has a dot; and a URL
  whose path repeats the repository and branch names, where the raw-content pattern
  decides, not the substring fallback.
\<close>

theorem parsePath_raw_url_witness:
  "parsePath demo acme ''https://raw.githubusercontent.com/acme/pics/main/images/old.png''
     = Inr ''images/old.png'' \<and>
   parsePath demo \<lparr>owner = ''jimliudev'', repo = ''image.bed'', token = ''t0ken'', branch = ''dev''\<rparr>
     ''http://raw.githubusercontent.com/jimliudev/image.bed/dev/image/blog/test.png''
     = Inr ''image/blog/test.png'' \<and>
   startsWith ''https://raw.githubusercontent.com/acme/pics/main/pics/main/x.png'' ''http'' \<and>
   regExpMatch demo (rawPattern acme) ''https://raw.githubusercontent.com/acme/pics/main/pics/main/x.png''
     = Inr (Some ''pics/main/x.png'') \<and>
   parsePath demo acme ''https://raw.githubusercontent.com/acme/pics/main/pics/main/x.png''
     = Inr ''pics/main/x.png''"
proof -
  have a: "owner acme = ''acme'' \<and> repo acme = ''pics'' \<and> branch acme = ''main''"
    by (simp add: acme_def)
  have s: "startsWith ''https://raw.githubusercontent.com/acme/pics/main/pics/main/x.png'' ''http''"
    by (simp add: startsWith_def)
  have m: "regExpMatch demo (rawPattern acme)
             ''https://raw.githubusercontent.com/acme/pics/main/pics/main/x.png''
           = Inr (Some ''pics/main/x.png'')"
    by (simp add: demo_regExp acme_def rx_eval)
  define c where "c = \<lparr>owner = ''jimliudev'', repo = ''image.bed'', token = ''t0ken'', branch = ''dev''\<rparr>"
  have g: "configText (owner c) \<and> configText (repo c) \<and> configText (branch c) \<and>
      startsWith ''http://'' ''http'' \<and> CHR ''r'' \<notin> set ''http://'' \<and>
      ''image/blog/test.png'' \<noteq> [] \<and>
      list_all (\<lambda>ch. \<not> isLineTerminator ch) ''image/blog/test.png''"
    by (simp add: c_def configText_def backslash_def startsWith_def isLineTerminator_def)
  have "parsePath demo c
      (''http://'' @ ''raw.githubusercontent.com/'' @ owner c @ ''/'' @ repo c @ ''/'' @ branch c @
       ''/'' @ ''image/blog/test.png'') = Inr ''image/blog/test.png''"
    using parsePath_raw_url[of demo c "''http://''" "''image/blog/test.png''", THEN conjunct2,
        THEN conjunct1] demo_regExp g by blast
  then have d: "parsePath demo c
      ''http://raw.githubusercontent.com/jimliudev/image.bed/dev/image/blog/test.png''
      = Inr ''image/blog/test.png''"
    by (simp add: c_def)
  show ?thesis
    using parsePath_raw_url[of demo acme _ _
        "''https://raw.githubusercontent.com/acme/pics/main/pics/main/x.png''" "''pics/main/x.png''"]
      demo_regExp a s m d[unfolded c_def] by simp
qed

text \<open>
  Claim C3, as the code has it. \<^verbatim>\<open>parsePath\<close> returns every input that does not
  begin with \<^verbatim>\<open>http\<close> unchanged, so it is idempotent there; and for any input,
  applying it twice gives what applying it once gives whenever the path it resolves to
  does not begin with \<^verbatim>\<open>http\<close>.
\<close>

theorem parsePath_idempotent_off_http:
  "(\<not> startsWith x ''http'' \<longrightarrow>
      parsePath P c x = Inr x \<and> parsePath_twice P c x = parsePath P c x) \<and>
   (parsePath P c x = Inr y \<and> \<not> startsWith y ''http'' \<longrightarrow>
      parsePath_twice P c x = parsePath P c x)"
  by (simp add: parsePath_twice_def parsePath_not_http)

text \<open>
  The relative path \<^verbatim>\<open>images/old.png\<close> is a fixed point; the relative path
  \<^verbatim>\<open>http-assets/pics/main/a.png\<close> resolves to \<^verbatim>\<open>a.png\<close>, which is one.
\<close>

theorem parsePath_idempotent_off_http_witness:
  "\<not> startsWith ''images/old.png'' ''http'' \<and>
   parsePath demo acme ''images/old.png'' = Inr ''images/old.png'' \<and>
   parsePath_twice demo acme ''images/old.png'' = parsePath demo acme ''images/old.png'' \<and>
   parsePath demo acme ''http-assets/pics/main/a.png'' = Inr ''a.png'' \<and>
   \<not> startsWith ''a.png'' ''http'' \<and>
   parsePath_twice demo acme ''http-assets/pics/main/a.png''
     = parsePath demo acme ''http-assets/pics/main/a.png''"
proof -
  have n: "\<not> startsWith ''images/old.png'' ''http''" "\<not> startsWith ''a.png'' ''http''"
    by (simp_all add: startsWith_def)
  show ?thesis
    using parsePath_idempotent_off_http[of "''images/old.png''" demo acme]
      parsePath_idempotent_off_http[of "''http-assets/pics/main/a.png''" demo acme "''a.png''"]
      n parsePath_acme_eval(1)
    by simp
qed

text \<open>
  C3 as the specification words it covers every bare repository-relative path. The
  path \<^verbatim>\<open>http-x/pics/main/http-y/pics/main/z.png\<close> is no URL (it has no scheme), but
  it begins with \<^verbatim>\<open>http\<close>: the fallback cuts it after the first
  \<^verbatim>\<open>pics\<close>...\<^verbatim>\<open>main/\<close>, and cuts the result again when applied a second time.
\<close>

theorem parsePath_not_idempotent_counterexample:
  "\<not> startsWith ''http-x/pics/main/http-y/pics/main/z.png'' ''http://'' \<and>
   \<not> startsWith ''http-x/pics/main/http-y/pics/main/z.png'' ''https://'' \<and>
   parsePath demo acme ''http-x/pics/main/http-y/pics/main/z.png'' = Inr ''http-y/pics/main/z.png'' \<and>
   parsePath_twice demo acme ''http-x/pics/main/http-y/pics/main/z.png'' = Inr ''z.png'' \<and>
   parsePath_twice demo acme ''http-x/pics/main/http-y/pics/main/z.png''
     \<noteq> parsePath demo acme ''http-x/pics/main/http-y/pics/main/z.png''"
  by (simp add: parsePath_twice_def parsePath_acme_eval startsWith_def)

text \<open>
  Claim C10. \<^verbatim>\<open>parsePath\<close> returns every input that does not begin with
  \<^verbatim>\<open>http\<close> unchanged. Every input that begins with \<^verbatim>\<open>http\<close> goes through the
  two patterns and then the fallback: the text after the first occurrence of the branch
  name (and one more character) behind the first occurrence of the repository name,
  when both occur; the input itself otherwise.
\<close>

theorem parsePath_http_prefix_gate:
  "(\<not> startsWith input ''http'' \<longrightarrow> parsePath P c input = Inr input) \<and>
   (startsWith input ''http'' \<longrightarrow>
      parsePath P c input =
        (case regExpMatch P (rawPattern c) input of
           Inl e \<Rightarrow> Inl e
         | Inr (Some rawMatch1) \<Rightarrow> Inr rawMatch1
         | Inr None \<Rightarrow>
             (case regExpMatch P (cdnPattern c) input of
                Inl e \<Rightarrow> Inl e
              | Inr (Some cdnMatch1) \<Rightarrow> Inr cdnMatch1
              | Inr None \<Rightarrow>
                  if indexOf input (repo c) \<noteq> - 1 \<and>
                     indexOf (substring input (indexOf input (repo c) + int (length (repo c))))
                       (branch c) \<noteq> - 1
                  then Inr (substring
                         (substring input (indexOf input (repo c) + int (length (repo c))))
                         (indexOf (substring input (indexOf input (repo c) + int (length (repo c))))
                            (branch c) + int (length (branch c)) + 1))
                  else Inr input)))"
  by (simp add: parsePath_def Let_def split: sum.splits option.splits)

text \<open>
  The relative path \<^verbatim>\<open>assets/pics/main/a.png\<close> is returned as it is;
  \<^verbatim>\<open>http-assets/pics/main/a.png\<close>, as much a relative path, is rewritten to
  \<^verbatim>\<open>a.png\<close>.
\<close>

theorem parsePath_http_prefix_gate_witness:
  "\<not> startsWith ''assets/pics/main/a.png'' ''http'' \<and>
   parsePath demo acme ''assets/pics/main/a.png'' = Inr ''assets/pics/main/a.png'' \<and>
   startsWith ''http-assets/pics/main/a.png'' ''http'' \<and>
   regExpMatch demo (rawPattern acme) ''http-assets/pics/main/a.png'' = Inr None \<and>
   regExpMatch demo (cdnPattern acme) ''http-assets/pics/main/a.png'' = Inr None \<and>
   parsePath demo acme ''http-assets/pics/main/a.png'' = Inr ''a.png''"
proof -
  have n: "\<not> startsWith ''assets/pics/main/a.png'' ''http''" by (simp add: startsWith_def)
  have h: "startsWith ''http-assets/pics/main/a.png'' ''http''" by (simp add: startsWith_def)
  have r: "regExpMatch demo (rawPattern acme) ''http-assets/pics/main/a.png'' = Inr None"
    by (simp add: demo_regExp acme_def rx_eval)
  have d: "regExpMatch demo (cdnPattern acme) ''http-assets/pics/main/a.png'' = Inr None"
    by (simp add: demo_regExp acme_def rx_eval)
  have i: "indexOf ''http-assets/pics/main/a.png'' (repo acme) = 12"
    by (simp add: acme_def str_eval)
  have "parsePath demo acme ''http-assets/pics/main/a.png'' = Inr ''a.png''"
    using parsePath_http_prefix_gate[of "''http-assets/pics/main/a.png''" demo acme] h r d i
    by (simp add: acme_def str_eval)
  moreover have "parsePath demo acme ''assets/pics/main/a.png'' = Inr ''assets/pics/main/a.png''"
    using parsePath_http_prefix_gate[of "''assets/pics/main/a.png''" demo acme] n by simp
  ultimately show ?thesis using n h r d by simp
qed

section \<open>Properties of the deleter\<close>

lemma deleteImage_returns: "fst (deleteImage P c inputPath w) = Inr ()"
  by (simp add: deleteImage_def split: prod.splits sum.splits)

lemma deleteImage_eq: "deleteImage P c inputPath w = (Inr (), snd (deleteImage P c inputPath w))"
  using deleteImage_returns[of P c inputPath w] by (cases "deleteImage P c inputPath w") simp

lemma deleteImages_fold:
  "deleteImages P c inputs w =
     (Inr (), foldl (\<lambda>w input. console_log LogSeparator (snd (deleteImage P c input w))) w inputs)"
proof (induction inputs arbitrary: w)
  case Nil
  show ?case by simp
next
  case (Cons input inputs)
  obtain w' where d: "deleteImage P c input w = (Inr (), w')"
    using deleteImage_eq[of P c input w] by blast
  show ?case using Cons.IH by (simp add: d)
qed

lemma demo_get_none:
  "axiosGet demo h (getRequest acme ''images/none.png'')
     = Inl (AxiosError (Some 404) (Some ''Not Found'') ''Request failed with status code 404'')"
  by (simp add: demo_def getRequest_def)

lemma demo_delete:
  "axiosDelete demo h (deleteRequest acme filePath (Some fileSha)) = Inr ()"
  by (simp add: demo_def deleteRequest_def)

lemma demo_delete_no_sha:
  "axiosDelete demo h (deleteRequest acme filePath None) =
     Inl (AxiosError (Some 422) (Some ''sha was not supplied'')
            ''Request failed with status code 422'')"
  by (simp add: demo_def deleteRequest_def)

lemma demo_get_old:
  "axiosGet demo h (getRequest acme ''images/old.png'') = Inr (FileData \<lparr>sha = ''abc123''\<rparr>)"
  by (simp add: demo_def)

lemma demo_get_images:
  "axiosGet demo h (getRequest acme ''images'') = Inr (DirectoryData [\<lparr>sha = ''abc123''\<rparr>])"
  by (simp add: demo_def getRequest_def)

lemma deleteImage_try_none:
  "deleteImage_try demo acme ''images/none.png'' world0 =
     (Inl (RemoteFileNotFound ''images/none.png''),
      issue (getRequest acme ''images/none.png'')
        (console_log (LogResolvedPath ''images/none.png'')
           (console_log (LogProcessing ''images/none.png'') world0)))"
proof -
  have "\<not> startsWith ''images/none.png'' ''http''" by (simp add: startsWith_def)
  then have p: "parsePath demo acme ''images/none.png'' = Inr ''images/none.png''"
    by (rule parsePath_not_http)
  show ?thesis
    by (simp add: deleteImage_try_def p getFileSha_def demo_get_none issue_def console_log_def)
qed

text \<open>
  Claim C4. \<^verbatim>\<open>deleteImage\<close> returns normally on every input. When the body of its
  \<^verbatim>\<open>try\<close> block throws, for whatever reason, the \<^verbatim>\<open>catch\<close> prints the error and
  nothing else happens. So \<^verbatim>\<open>deleteImages\<close> returns normally too, after one
  \<^verbatim>\<open>deleteImage\<close> and one separator line for each input, in order.
\<close>

theorem deleteImage_never_throws:
  "fst (deleteImage P c inputPath w) = Inr () \<and>
   (\<forall>error w'. deleteImage_try P c inputPath w = (Inl error, w') \<longrightarrow>
      snd (deleteImage P c inputPath w) =
        console_log (if isAxiosError error then ErrDeleteFailed error else ErrError error) w') \<and>
   deleteImages P c inputs w =
     (Inr (), foldl (\<lambda>w input. console_log LogSeparator (snd (deleteImage P c input w))) w inputs)"
proof (intro conjI allI impI)
  show "fst (deleteImage P c inputPath w) = Inr ()" by (rule deleteImage_returns)
next
  fix error w'
  assume "deleteImage_try P c inputPath w = (Inl error, w')"
  then show "snd (deleteImage P c inputPath w) =
        console_log (if isAxiosError error then ErrDeleteFailed error else ErrError error) w'"
    by (simp add: deleteImage_def)
next
  show "deleteImages P c inputs w =
     (Inr (), foldl (\<lambda>w input. console_log LogSeparator (snd (deleteImage P c input w))) w inputs)"
    by (rule deleteImages_fold)
qed

text \<open>
  Deleting a path that the remote store does not hold prints the not-found error and
  returns; a batch goes on to the next input.
\<close>

theorem deleteImage_never_throws_witness:
  "deleteImage_try demo acme ''images/none.png'' world0 =
     (Inl (RemoteFileNotFound ''images/none.png''),
      issue (getRequest acme ''images/none.png'')
        (console_log (LogResolvedPath ''images/none.png'')
           (console_log (LogProcessing ''images/none.png'') world0))) \<and>
   deleteImage demo acme ''images/none.png'' world0 =
     (Inr (),
      \<lparr>requests = [getRequest acme ''images/none.png''],
       console = [LogProcessing ''images/none.png'', LogResolvedPath ''images/none.png'',
                  ErrError (RemoteFileNotFound ''images/none.png'')],
       ticks = 0\<rparr>) \<and>
   fst (deleteImages demo acme [''images/none.png'', ''images/old.png''] world0) = Inr () \<and>
   console (snd (deleteImages demo acme [''images/none.png'', ''images/old.png''] world0)) =
     [LogProcessing ''images/none.png'', LogResolvedPath ''images/none.png'',
      ErrError (RemoteFileNotFound ''images/none.png''), LogSeparator,
      LogProcessing ''images/old.png'', LogResolvedPath ''images/old.png'',
      LogSha (Some ''abc123''), LogDeleteOk, LogSeparator]"
proof -
  note t = deleteImage_never_throws[of demo acme "''images/none.png''" world0
      "[''images/none.png'', ''images/old.png'']"]
  note t1 = t[THEN conjunct1]
  note t2 = t[THEN conjunct2, THEN conjunct1, rule_format, OF deleteImage_try_none]
  note t3 = t[THEN conjunct2, THEN conjunct2]
  have s: "snd (deleteImage demo acme ''images/none.png'' world0) =
      \<lparr>requests = [getRequest acme ''images/none.png''],
       console = [LogProcessing ''images/none.png'', LogResolvedPath ''images/none.png'',
                  ErrError (RemoteFileNotFound ''images/none.png'')],
       ticks = 0\<rparr>"
    unfolding t2 by (simp add: isAxiosError_def issue_def console_log_def world0_def)
  have d: "deleteImage demo acme ''images/none.png'' world0 =
     (Inr (),
      \<lparr>requests = [getRequest acme ''images/none.png''],
       console = [LogProcessing ''images/none.png'', LogResolvedPath ''images/none.png'',
                  ErrError (RemoteFileNotFound ''images/none.png'')],
       ticks = 0\<rparr>)"
    using t1 s by (simp add: prod_eq_iff)
  have "\<not> startsWith ''images/old.png'' ''http''" by (simp add: startsWith_def)
  then have p: "parsePath demo acme ''images/old.png'' = Inr ''images/old.png''"
    by (rule parsePath_not_http)
  have o: "\<And>w. console (snd (deleteImage demo acme ''images/old.png'' w)) =
      console w @ [LogProcessing ''images/old.png'', LogResolvedPath ''images/old.png'',
        LogSha (Some ''abc123''), LogDeleteOk]"
    by (simp add: deleteImage_def deleteImage_try_def p getFileSha_def demo_get_old
        demo_delete issue_def console_log_def Let_def data_sha_def)
  have f: "fst (deleteImages demo acme [''images/none.png'', ''images/old.png''] world0) = Inr ()"
    unfolding t3 by (rule fst_conv)
  have c: "console (snd (deleteImages demo acme [''images/none.png'', ''images/old.png''] world0)) =
     [LogProcessing ''images/none.png'', LogResolvedPath ''images/none.png'',
      ErrError (RemoteFileNotFound ''images/none.png''), LogSeparator,
      LogProcessing ''images/old.png'', LogResolvedPath ''images/old.png'',
      LogSha (Some ''abc123''), LogDeleteOk, LogSeparator]"
    unfolding t3 by (simp add: s o console_log_def)
  show ?thesis
    using deleteImage_try_none d f c by (intro conjI)
qed

text \<open>
  Claim C5 asks that a DELETE is issued only after the version identifier of the same
  path has been read, and that it supplies that identifier. The code does so when the
  GET answers with a file descriptor, and issues no DELETE when the GET fails or the
  path cannot be resolved. But when the GET answers with a directory listing,
  \<^verbatim>\<open>response.data.sha\<close> is \<^verbatim>\<open>undefined\<close> and \<^verbatim>\<open>deleteImage\<close> goes on: it
  issues a DELETE whose body has no \<^verbatim>\<open>sha\<close>. The requests of one
  \<^verbatim>\<open>deleteImage\<close>, in full:
\<close>

theorem deleteImage_requests:
  "requests (snd (deleteImage P c inputPath w)) =
     (case parsePath P c inputPath of
        Inl e \<Rightarrow> requests w
      | Inr filePath \<Rightarrow>
          (let get = \<lparr>req_method = GET,
                      req_url = ''https://api.github.com/repos/'' @ owner c @ ''/'' @ repo c @
                                ''/contents/'' @ filePath @ ''?ref='' @ branch c,
                      req_headers = [(''Authorization'', ''token '' @ token c),
                                     (''Accept'', ''application/vnd.github.v3+json'')],
                      req_body = []\<rparr>
           in case axiosGet P (requests w) get of
                Inl e \<Rightarrow> requests w @ [get]
              | Inr data \<Rightarrow>
                  requests w @
                  [get,
                   \<lparr>req_method = DELETE,
                    req_url = ''https://api.github.com/repos/'' @ owner c @ ''/'' @ repo c @
                              ''/contents/'' @ filePath,
                    req_headers = [(''Authorization'', ''token '' @ token c),
                                   (''Content-Type'', ''application/json''),
                                   (''Accept'', ''application/vnd.github.v3+json'')],
                    req_body =
                      (case data of
                         FileData file \<Rightarrow>
                           [(''message'', ''Delete image: '' @ basename filePath),
                            (''sha'', sha file), (''branch'', branch c)]
                       | DirectoryData entries \<Rightarrow>
                           [(''message'', ''Delete image: '' @ basename filePath),
                            (''branch'', branch c)])\<rparr>]))"
proof (cases "parsePath P c inputPath")
  case (Inl e)
  then show ?thesis by (simp add: deleteImage_def deleteImage_try_def console_log_def)
next
  case (Inr filePath)
  define get where "get = getRequest c filePath"
  have g: "\<lparr>req_method = GET,
             req_url = ''https://api.github.com/repos/'' @ owner c @ ''/'' @ repo c @
                       ''/contents/'' @ filePath @ ''?ref='' @ branch c,
             req_headers = [(''Authorization'', ''token '' @ token c),
                            (''Accept'', ''application/vnd.github.v3+json'')],
             req_body = []\<rparr> = get"
    by (simp add: get_def getRequest_def apiUrl_def authHeaders_def)
  show ?thesis
  proof (cases "axiosGet P (requests w) get")
    case (Inl e)
    then show ?thesis
      unfolding Inr sum.case Let_def g
      by (simp add: deleteImage_def deleteImage_try_def Inr getFileSha_def get_def[symmetric]
          issue_def console_log_def Let_def split: js_error.splits)
  next
    case r: (Inr data)
    have d: "deleteRequest c filePath (data_sha data) =
        \<lparr>req_method = DELETE,
         req_url = ''https://api.github.com/repos/'' @ owner c @ ''/'' @ repo c @
                   ''/contents/'' @ filePath,
         req_headers = [(''Authorization'', ''token '' @ token c),
                        (''Content-Type'', ''application/json''),
                        (''Accept'', ''application/vnd.github.v3+json'')],
         req_body =
           (case data of
              FileData file \<Rightarrow>
                [(''message'', ''Delete image: '' @ basename filePath),
                 (''sha'', sha file), (''branch'', branch c)]
            | DirectoryData entries \<Rightarrow>
                [(''message'', ''Delete image: '' @ basename filePath),
                 (''branch'', branch c)])\<rparr>"
      by (cases data) (simp_all add: deleteRequest_def data_sha_def apiUrl_def jsonHeaders_def)
    have "requests (snd (deleteImage P c inputPath w)) =
        requests w @ [get, deleteRequest c filePath (data_sha data)]"
      by (simp add: deleteImage_def deleteImage_try_def Inr getFileSha_def get_def[symmetric] r
          issue_def console_log_def Let_def split: sum.splits)
    then show ?thesis
      unfolding Inr sum.case Let_def g r d by simp
  qed
qed

text \<open>
  On the example platform \<^verbatim>\<open>images\<close> is a directory: \<^verbatim>\<open>deleteImage\<close> issues the
  GET and then a DELETE without \<^verbatim>\<open>sha\<close>, which the store refuses; the error is
  logged. For the file \<^verbatim>\<open>images/old.png\<close> the DELETE carries the \<^verbatim>\<open>sha\<close> of the
  GET; for a missing path the GET is the only request.
\<close>

theorem deleteImage_directory_delete_without_sha:
  "map (\<lambda>r. (req_method r, req_url r, req_body r))
     (requests (snd (deleteImage demo acme ''images'' world0))) =
     [(GET, ''https://api.github.com/repos/acme/pics/contents/images?ref=main'', []),
      (DELETE, ''https://api.github.com/repos/acme/pics/contents/images'',
       [(''message'', ''Delete image: images''), (''branch'', ''main'')])] \<and>
   console (snd (deleteImage demo acme ''images'' world0)) =
     [LogProcessing ''images'', LogResolvedPath ''images'', LogSha None,
      ErrDeleteFailed (AxiosError (Some 422) (Some ''sha was not supplied'')
                         ''Request failed with status code 422'')] \<and>
   map (\<lambda>r. (req_method r, req_url r, req_body r))
     (requests (snd (deleteImage demo acme ''images/old.png'' world0))) =
     [(GET, ''https://api.github.com/repos/acme/pics/contents/images/old.png?ref=main'', []),
      (DELETE, ''https://api.github.com/repos/acme/pics/contents/images/old.png'',
       [(''message'', ''Delete image: old.png''), (''sha'', ''abc123''), (''branch'', ''main'')])] \<and>
   map (\<lambda>r. (req_method r, req_url r, req_body r))
     (requests (snd (deleteImage demo acme ''images/none.png'' world0))) =
     [(GET, ''https://api.github.com/repos/acme/pics/contents/images/none.png?ref=main'', [])]"
proof -
  have p: "parsePath demo acme ''images'' = Inr ''images''"
    "parsePath demo acme ''images/old.png'' = Inr ''images/old.png''"
    "parsePath demo acme ''images/none.png'' = Inr ''images/none.png''"
    by (simp_all add: parsePath_not_http startsWith_def)
  have r0: "requests world0 = []" by (simp add: world0_def)
  have g: "\<And>filePath.
      \<lparr>req_method = GET,
       req_url = ''https://api.github.com/repos/'' @ owner acme @ ''/'' @ repo acme @
                 ''/contents/'' @ filePath @ ''?ref='' @ branch acme,
       req_headers = [(''Authorization'', ''token '' @ token acme),
                      (''Accept'', ''application/vnd.github.v3+json'')],
       req_body = []\<rparr> = getRequest acme filePath"
    by (simp add: getRequest_def apiUrl_def authHeaders_def)
  have a: "map (\<lambda>r. (req_method r, req_url r, req_body r))
     (requests (snd (deleteImage demo acme ''images'' world0))) =
     [(GET, ''https://api.github.com/repos/acme/pics/contents/images?ref=main'', []),
      (DELETE, ''https://api.github.com/repos/acme/pics/contents/images'',
       [(''message'', ''Delete image: images''), (''branch'', ''main'')])]"
    unfolding deleteImage_requests[of demo acme "''images''" world0] p sum.case Let_def g
      demo_get_images r0
    by (simp add: getRequest_def apiUrl_def acme_def path_eval)
  have b: "map (\<lambda>r. (req_method r, req_url r, req_body r))
     (requests (snd (deleteImage demo acme ''images/old.png'' world0))) =
     [(GET, ''https://api.github.com/repos/acme/pics/contents/images/old.png?ref=main'', []),
      (DELETE, ''https://api.github.com/repos/acme/pics/contents/images/old.png'',
       [(''message'', ''Delete image: old.png''), (''sha'', ''abc123''), (''branch'', ''main'')])]"
    unfolding deleteImage_requests[of demo acme "''images/old.png''" world0] p sum.case Let_def g
      demo_get_old r0
    by (simp add: getRequest_def apiUrl_def acme_def path_eval)
  have c: "map (\<lambda>r. (req_method r, req_url r, req_body r))
     (requests (snd (deleteImage demo acme ''images/none.png'' world0))) =
     [(GET, ''https://api.github.com/repos/acme/pics/contents/images/none.png?ref=main'', [])]"
    unfolding deleteImage_requests[of demo acme "''images/none.png''" world0] p sum.case Let_def g
      demo_get_none r0
    by (simp add: getRequest_def apiUrl_def acme_def)
  have d: "console (snd (deleteImage demo acme ''images'' world0)) =
     [LogProcessing ''images'', LogResolvedPath ''images'', LogSha None,
      ErrDeleteFailed (AxiosError (Some 422) (Some ''sha was not supplied'')
                         ''Request failed with status code 422'')]"
    by (simp add: deleteImage_def deleteImage_try_def p getFileSha_def demo_get_images
        demo_delete_no_sha data_sha_def issue_def console_log_def Let_def isAxiosError_def world0_def)
  show ?thesis using a b c d by (intro conjI)
qed

end
